theory Spec2Isabelle
  imports Main
begin

section \<open>Python values, errors and the store\<close>

text \<open>
  Exceptions are values. \<open>TypeError\<close>, \<open>ValueError\<close>, \<open>IndexError\<close>, \<open>KeyError\<close> and
  \<open>OverflowError\<close> are the Python exceptions of the same name, with the text of the message.
  \<open>Unmodelled\<close> is not a Python exception: it marks the places where Python goes on with a
  value that this embedding has no representation for (arrays of dimension zero or above
  two, arrays of objects), so that no theorem says anything about them.
\<close>

datatype error =
    TypeError string
  | ValueError string
  | IndexError string
  | KeyError string
  | OverflowError string
  | Unmodelled string

text \<open>
  The Python values that reach the automata: scalars, lists, and numpy arrays of integers of
  dimension one and two (a two-dimensional array is the list of its rows, all of one length).
  \<open>PyFloat m e\<close> is the float \<open>m * 2 ^ e\<close>.
\<close>

datatype pyval =
    PyNone
  | PyBool bool
  | PyInt int
  | PyFloat int int
  | PyStr string
  | PyList "pyval list"
  | NdArray1 "int list"
  | NdArray2 "int list list"

text \<open>
  Lists and arrays are mutable objects, and the claims about copies depend on who shares
  what. Objects that the caller can reach live in a store; an address is an index into
  it, valid when it is below the length of the store (Python has no dangling reference).
  A new object is appended, so its address is fresh.
\<close>

type_synonym addr = nat
type_synonym store = "pyval list"

definition alloc :: "store \<Rightarrow> pyval \<Rightarrow> store \<times> addr" where
  "alloc h v = (h @ [v], length h)"

subsection \<open>numpy: conversion to an array, indexing\<close>

fun is_PyInt :: "pyval \<Rightarrow> bool" where
  "is_PyInt (PyInt i) = True"
| "is_PyInt v = False"

fun the_int :: "pyval \<Rightarrow> int" where
  "the_int (PyInt i) = i"
| "the_int v = 0"

text \<open>
  A row of integers: a one-dimensional array, or a list of Python ints that is not empty
  (numpy makes an array of floats from an empty list).
\<close>

fun int_row :: "pyval \<Rightarrow> int list option" where
  "int_row (NdArray1 xs) = Some xs"
| "int_row (PyList vs) =
     (if vs \<noteq> [] \<and> list_all is_PyInt vs then Some (map the_int vs) else None)"
| "int_row v = None"

text \<open>
  \<open>np.array(v)\<close> (and so \<open>np.copy(v)\<close>, \<open>np.asarray(v)\<close>) on integer data. An array is
  copied; a list of ints becomes a one-dimensional array; a list of rows of one length
  becomes a two-dimensional array. Everything else (scalars, empty and ragged lists, deeper
  nesting) gives an array outside this embedding.
\<close>

fun np_array :: "pyval \<Rightarrow> error + pyval" where
  "np_array (NdArray1 xs) = Inr (NdArray1 xs)"
| "np_array (NdArray2 g) = Inr (NdArray2 g)"
| "np_array (PyList vs) =
     (case int_row (PyList vs) of
        Some xs \<Rightarrow> Inr (NdArray1 xs)
      | None \<Rightarrow>
          (if vs \<noteq> [] \<and> list_all (\<lambda>v. int_row v \<noteq> None) vs
              \<and> list_all (\<lambda>v. length (the (int_row v)) = length (the (int_row (hd vs)))) vs
           then Inr (NdArray2 (map (\<lambda>v. the (int_row v)) vs))
           else Inl (Unmodelled ''array of floats, of objects or of more than two dimensions'')))"
| "np_array v = Inl (Unmodelled ''zero-dimensional array'')"

text \<open>
  An index into an axis of length \<open>len\<close>: negative indices count from the end, anything
  outside \<open>[-len, len)\<close> raises IndexError.
\<close>

definition norm_index :: "int \<Rightarrow> nat \<Rightarrow> nat option" where
  "norm_index i len =
     (if 0 \<le> i \<and> i < int len then Some (nat i)
      else if - int len \<le> i \<and> i < 0 then Some (nat (i + int len))
      else None)"

text \<open>
  \<open>table[c]\<close> for a two-dimensional integer array \<open>c\<close> of indices: every cell of \<open>c\<close> is
  looked up in the one-dimensional \<open>table\<close>.
\<close>

definition take_cells :: "int list \<Rightarrow> int list list \<Rightarrow> error + pyval" where
  "take_cells tbl c =
     (if list_all (list_all (\<lambda>v. norm_index v (length tbl) \<noteq> None)) c
      then Inr (NdArray2 (map (map (\<lambda>v. tbl ! the (norm_index v (length tbl)))) c))
      else Inl (IndexError ''index out of bounds''))"

fun index_array :: "pyval \<Rightarrow> int list list \<Rightarrow> error + pyval" where
  "index_array (NdArray1 tbl) c = take_cells tbl c"
| "index_array (NdArray2 t) c = Inl (Unmodelled ''array of three dimensions'')"
| "index_array (PyList vs) c = Inl (Unmodelled ''list indexed by an array'')"
| "index_array (PyStr s) c = Inl (Unmodelled ''string indexed by an array'')"
| "index_array v c = Inl (TypeError ''object is not subscriptable'')"

subsection \<open>scipy.signal.convolve2d\<close>

text \<open>
  \<open>convolve2d(in1, in2, mode="same", boundary, fillvalue)\<close> as scipy documents it: the full
  two-dimensional convolution of \<open>in1\<close> with \<open>in2\<close>, cut to the size of \<open>in1\<close> and centred
  on it. Cell \<open>(m, n)\<close> of the output is the sum over the kernel positions \<open>(j, k)\<close> of
  \<open>in2[j][k] * in1[m + (Kh - 1) div 2 - j][n + (Kw - 1) div 2 - k]\<close>, where a position outside
  \<open>in1\<close> reads the periodic extension (boundary \<open>wrap\<close>) or \<open>fillvalue\<close> (boundary \<open>fill\<close>).
\<close>

definition width :: "int list list \<Rightarrow> nat" where
  "width g = (case g of [] \<Rightarrow> 0 | r # rs \<Rightarrow> length r)"

definition boundary_read :: "string \<Rightarrow> int \<Rightarrow> int list list \<Rightarrow> int \<Rightarrow> int \<Rightarrow> int" where
  "boundary_read boundary fillvalue g i j =
     (if boundary = ''wrap''
      then g ! nat (i mod int (length g)) ! nat (j mod int (width g))
      else if 0 \<le> i \<and> i < int (length g) \<and> 0 \<le> j \<and> j < int (width g)
           then g ! nat i ! nat j
           else fillvalue)"

definition conv_cell ::
  "string \<Rightarrow> int \<Rightarrow> int list list \<Rightarrow> int list list \<Rightarrow> nat \<Rightarrow> nat \<Rightarrow> int" where
  "conv_cell boundary fillvalue in1 in2 m n =
     (\<Sum>j\<leftarrow>[0..<length in2]. \<Sum>k\<leftarrow>[0..<width in2].
        in2 ! j ! k *
        boundary_read boundary fillvalue in1
          (int m + int ((length in2 - 1) div 2) - int j)
          (int n + int ((width in2 - 1) div 2) - int k))"

definition convolve2d ::
  "int list list \<Rightarrow> int list list \<Rightarrow> string \<Rightarrow> int \<Rightarrow> error + int list list" where
  "convolve2d in1 in2 boundary fillvalue =
     (if boundary = ''wrap'' \<or> boundary = ''fill''
      then Inr (map (\<lambda>m. map (\<lambda>n. conv_cell boundary fillvalue in1 in2 m n) [0..<width in1])
                  [0..<length in1])
      else Inl (Unmodelled ''other boundary modes''))"

section \<open>ConvCA: the convolution engine\<close>

text \<open>
  The class of an engine decides which \<open>set_state\<close> and \<open>copy_state\<close> run: \<open>ECA\<close> overrides
  both. The kernel and the update array are held by value: no method writes them after
  construction. \<open>cell_array\<close> is \<open>None\<close> until \<open>set_state\<close>, then the address of the grid.
\<close>

datatype cls = ConvCA_cls | LifeLike_cls | ECA_cls | NonTotalistic_cls

record ConvCA =
  cls :: cls
  convolve_boundary :: string
  update_array :: pyval
  kernel :: "int list list"
  edges :: string
  edge_fill :: int
  cell_array :: "addr option"

definition ConvCA_init ::
  "cls \<Rightarrow> pyval \<Rightarrow> int list list \<Rightarrow> string \<Rightarrow> int \<Rightarrow> error + ConvCA" where
  "ConvCA_init c upd k edg fill =
     (if edg \<notin> set [''wrap'', ''fixed''] then Inl (ValueError ''Invalid edge mode'')
      else Inr \<lparr> cls = c,
                 convolve_boundary = (if edg = ''wrap'' then ''wrap'' else ''fill''),
                 update_array = upd, kernel = k, edges = edg, edge_fill = fill,
                 cell_array = None \<rparr>)"

text \<open>One generation on the value of the grid: convolve, then look every cell up.\<close>

definition step_grid :: "ConvCA \<Rightarrow> int list list \<Rightarrow> error + pyval" where
  "step_grid ca g =
     (case convolve2d g (kernel ca) (convolve_boundary ca) (edge_fill ca) of
        Inl e \<Rightarrow> Inl e
      | Inr c \<Rightarrow> index_array (update_array ca) c)"

text \<open>
  The expression \<open>self.update_array[convolve2d(self.cell_array, ...)]\<close> on the value of
  \<open>cell_array\<close>: without a two-dimensional array there, \<open>convolve2d\<close> raises.
\<close>

definition step_value :: "ConvCA \<Rightarrow> pyval \<Rightarrow> error + pyval" where
  "step_value ca v =
     (case v of
        NdArray2 g \<Rightarrow> step_grid ca g
      | w \<Rightarrow> Inl (ValueError ''convolve2d inputs must both be 2-D arrays''))"

text \<open>\<open>step\<close>: the new grid is a new array, and \<open>cell_array\<close> is rebound to it.\<close>

definition step :: "store \<Rightarrow> ConvCA \<Rightarrow> error + (store \<times> ConvCA)" where
  "step h ca =
     (case cell_array ca of
        None \<Rightarrow> Inl (ValueError ''convolve2d inputs must both be 2-D arrays'')
      | Some a \<Rightarrow>
          (case step_value ca (h ! a) of
             Inl e \<Rightarrow> Inl e
           | Inr v \<Rightarrow> (case alloc h v of (h', a') \<Rightarrow> Inr (h', ca\<lparr>cell_array := Some a'\<rparr>))))"

text \<open>The value of the grid after \<open>k\<close> calls of \<open>step\<close>, as in \<open>for i in range(k): ca.step()\<close>.\<close>

fun generations :: "ConvCA \<Rightarrow> nat \<Rightarrow> pyval \<Rightarrow> error + pyval" where
  "generations ca 0 v = Inr v"
| "generations ca (Suc k) v =
     (case step_value ca v of Inl e \<Rightarrow> Inl e | Inr v' \<Rightarrow> generations ca k v')"

text \<open>
  \<open>set_state(cell_array)\<close>, the argument given by its address: \<open>np.copy(cell_array)\<close>, and
  for an \<open>ECA\<close> \<open>np.copy([cell_array])\<close>, which turns the row into a grid of one row.
\<close>

definition set_state :: "store \<Rightarrow> ConvCA \<Rightarrow> addr \<Rightarrow> error + (store \<times> ConvCA)" where
  "set_state h ca a =
     (case np_array (if cls ca = ECA_cls then PyList [h ! a] else h ! a) of
        Inl e \<Rightarrow> Inl e
      | Inr v \<Rightarrow> (case alloc h v of (h', a') \<Rightarrow> Inr (h', ca\<lparr>cell_array := Some a'\<rparr>)))"

text \<open>
  \<open>copy_state()\<close> returns the address of a new array: \<open>np.copy(self.cell_array)\<close>, and for an
  \<open>ECA\<close> \<open>np.copy(self.cell_array[0])\<close>, the first row.
\<close>

definition ConvCA_copy_state :: "store \<Rightarrow> ConvCA \<Rightarrow> error + (store \<times> addr)" where
  "ConvCA_copy_state h ca =
     (case cell_array ca of
        None \<Rightarrow> Inl (Unmodelled ''zero-dimensional array of None'')
      | Some a \<Rightarrow> (case np_array (h ! a) of Inl e \<Rightarrow> Inl e | Inr v \<Rightarrow> Inr (alloc h v)))"

definition ECA_copy_state :: "store \<Rightarrow> ConvCA \<Rightarrow> error + (store \<times> addr)" where
  "ECA_copy_state h ca =
     (case cell_array ca of
        None \<Rightarrow> Inl (TypeError ''NoneType object is not subscriptable'')
      | Some a \<Rightarrow>
          (case h ! a of
             NdArray2 g \<Rightarrow>
               (case g of
                  [] \<Rightarrow> Inl (IndexError ''index 0 is out of bounds for axis 0 with size 0'')
                | r # rs \<Rightarrow> Inr (alloc h (NdArray1 r)))
           | NdArray1 xs \<Rightarrow>
               (case xs of
                  [] \<Rightarrow> Inl (IndexError ''index 0 is out of bounds for axis 0 with size 0'')
                | x # xs' \<Rightarrow> Inl (Unmodelled ''zero-dimensional array''))
           | v \<Rightarrow> Inl (Unmodelled ''state that is not an array'')))"

definition copy_state :: "store \<Rightarrow> ConvCA \<Rightarrow> error + (store \<times> addr)" where
  "copy_state h ca = (if cls ca = ECA_cls then ECA_copy_state h ca else ConvCA_copy_state h ca)"

section \<open>ECA: elementary automata\<close>

text \<open>\<open>format(n, "08b")\<close> for \<open>n \<ge> 0\<close>: the binary digits, most significant first, padded
  with zeros on the left to eight characters.\<close>

fun bin :: "nat \<Rightarrow> string" where
  "bin n = (if n < 2 then [if n = 0 then CHR ''0'' else CHR ''1'']
            else bin (n div 2) @ [if n mod 2 = 0 then CHR ''0'' else CHR ''1''])"

declare bin.simps [simp del]

definition format_08b :: "int \<Rightarrow> string" where
  "format_08b n = replicate (8 - length (bin (nat n))) (CHR ''0'') @ bin (nat n)"

text \<open>\<open>int(c)\<close> for a decimal digit.\<close>

definition int_of_digit :: "char \<Rightarrow> int" where
  "int_of_digit c = int (of_char c) - 48"

definition ECA :: "pyval \<Rightarrow> string \<Rightarrow> int \<Rightarrow> error + ConvCA" where
  "ECA n edg fill =
     (case n of
        PyInt i \<Rightarrow>
          (if i > 255 \<or> i < 0 then Inl (ValueError ''Not a valid rule'')
           else ConvCA_init ECA_cls
                  (NdArray1 (map int_of_digit (rev (format_08b i)))) [[1, 2, 4]] edg fill)
      | v \<Rightarrow> Inl (TypeError ''Not a valid rule''))"


section \<open>ConvCA.n_generations: the generation sequencer\<close>

text \<open>
  The generator is a loop that is resumed by each \<open>next()\<close> of the consumer. Its model runs
  the loop for a number of \<open>next()\<close> calls (the fuel) and lists what each call gave: a
  yielded snapshot (by its address), the end of the generator, or an exception. The loop
  variable \<open>count\<close> and the argument \<open>n\<close> are passed along; the engine and the store are
  threaded through, since the generator steps the engine it was made from.
\<close>

datatype event = Yield addr | StopIteration | Raise error

fun n_generations_loop ::
  "nat \<Rightarrow> int \<Rightarrow> int \<Rightarrow> store \<Rightarrow> ConvCA \<Rightarrow> event list \<times> store \<times> ConvCA" where
  "n_generations_loop 0 count n h ca = ([], h, ca)"
| "n_generations_loop (Suc fuel) count n h ca =
     (if count < n \<or> n < 0 then
        (case (if count > 0 then step h ca else Inr (h, ca)) of
           Inl e \<Rightarrow> ([Raise e], h, ca)
         | Inr (h1, ca1) \<Rightarrow>
             (case copy_state h1 ca1 of
                Inl e \<Rightarrow> ([Raise e], h1, ca1)
              | Inr (h2, a) \<Rightarrow>
                  (case n_generations_loop fuel (if n \<ge> 0 then count + 1 else count) n h2 ca1 of
                     (evs, h3, ca3) \<Rightarrow> (Yield a # evs, h3, ca3))))
      else ([StopIteration], h, ca))"

definition n_generations ::
  "nat \<Rightarrow> int \<Rightarrow> store \<Rightarrow> ConvCA \<Rightarrow> event list \<times> store \<times> ConvCA" where
  "n_generations fuel n h ca = n_generations_loop fuel 0 n h ca"

section \<open>LifeLike: totalistic rules\<close>

text \<open>
  The rule is a string, or a list of the two lists of counts (born, survive). The test
  \<open>len(rule_string) == 2 and type(rule_string[0]) == type([])\<close> holds of the second form and
  of no string.
\<close>

datatype rule_spec = RuleString string | RuleLists "int list" "int list"

definition is_digit :: "char \<Rightarrow> bool" where
  "is_digit c = (c \<in> set ''0123456789'')"

text \<open>
  \<open>re.search("^[bB]?(\d*)/[sS]?(\d*)$", s)\<close>: the two groups of a match. No choice is ever
  revised, since the letter, the digits and the slash exclude one another; \<open>$\<close> also
  matches before a newline that ends the string. (On the characters of \<open>string\<close>, \<open>\d\<close> is
  the ten ASCII digits.)
\<close>

definition skip_letter :: "char \<Rightarrow> char \<Rightarrow> string \<Rightarrow> string" where
  "skip_letter l u s = (case s of [] \<Rightarrow> [] | c # cs \<Rightarrow> if c = l \<or> c = u then cs else s)"

definition match_rule :: "string \<Rightarrow> (string \<times> string) option" where
  "match_rule s =
     (let s1 = skip_letter (CHR ''b'') (CHR ''B'') s in
      case dropWhile is_digit s1 of
        [] \<Rightarrow> None
      | c # s3 \<Rightarrow>
          if c \<noteq> CHR ''/'' then None
          else
            (let s4 = skip_letter (CHR ''s'') (CHR ''S'') s3 in
             if dropWhile is_digit s4 = [] \<or> dropWhile is_digit s4 = [CHR 0x0A]
             then Some (takeWhile is_digit s1, takeWhile is_digit s4)
             else None))"

definition rule_sets :: "rule_spec \<Rightarrow> error + (int list \<times> int list)" where
  "rule_sets rule_string =
     (case rule_string of
        RuleLists live survive \<Rightarrow> Inr (live, survive)
      | RuleString s \<Rightarrow>
          (case match_rule s of
             None \<Rightarrow> Inl (ValueError ''Invalid rule: %s'')
           | Some (b, sv) \<Rightarrow> Inr (map int_of_digit b, map int_of_digit sv)))"

definition set2 :: "int list list \<Rightarrow> nat \<Rightarrow> nat \<Rightarrow> int \<Rightarrow> int list list" where
  "set2 g i j v = g[i := (g ! i)[j := v]]"

definition grid_sum :: "int list list \<Rightarrow> int" where
  "grid_sum g = sum_list (map sum_list g)"

text \<open>\<open>np.flip\<close> of a two-dimensional array reverses both axes.\<close>

definition np_flip2 :: "int list list \<Rightarrow> int list list" where
  "np_flip2 g = rev (map rev g)"

text \<open>
  The truth value of an array: an array of more than one element has none, and \<open>not\<close>
  raises. (An empty array is false, with a warning, in the numpy of the repository.)
\<close>

definition array_not :: "int list \<Rightarrow> error + bool" where
  "array_not xs =
     (case xs of
        [] \<Rightarrow> Inr True
      | [x] \<Rightarrow> Inr (x = 0)
      | x # y # ys \<Rightarrow>
          Inl (ValueError ''The truth value of an array with more than one element is ambiguous''))"

fun py_not :: "pyval \<Rightarrow> error + bool" where
  "py_not PyNone = Inr True"
| "py_not (PyBool b) = Inr (\<not> b)"
| "py_not (PyInt i) = Inr (i = 0)"
| "py_not (PyFloat m e) = Inr (m = 0)"
| "py_not (PyStr s) = Inr (s = [])"
| "py_not (PyList vs) = Inr (vs = [])"
| "py_not (NdArray1 xs) = array_not xs"
| "py_not (NdArray2 g) = array_not (concat g)"

text \<open>
  The three lines \<open>kernel[r,r] = 0\<close>, \<open>weight_sum = kernel.sum()\<close>,
  \<open>kernel[r,r] = weight_sum + 1\<close>, at the position \<open>(i, j)\<close> that the index \<open>r\<close> denotes on
  each axis. The result is the kernel and the weight sum.
\<close>

definition centre_weight :: "int list list \<Rightarrow> nat \<Rightarrow> nat \<Rightarrow> int list list \<times> int" where
  "centre_weight k i j = (set2 (set2 k i j 0) i j (grid_sum (set2 k i j 0) + 1), grid_sum (set2 k i j 0))"

text \<open>Without weights: \<open>np.ones(size*size).reshape(size,size)\<close> raises for a negative size.\<close>

definition ones_kernel :: "int \<Rightarrow> error + (int list list \<times> int)" where
  "ones_kernel r =
     (if r < 0 then Inl (ValueError ''negative dimensions are not allowed'')
      else Inr (centre_weight (replicate (nat (2 * r + 1)) (replicate (nat (2 * r + 1)) 1))
                  (nat r) (nat r)))"

definition flipped_kernel :: "int list list \<Rightarrow> int \<Rightarrow> error + (int list list \<times> int)" where
  "flipped_kernel g r =
     (case norm_index r (length g) of
        None \<Rightarrow> Inl (IndexError ''index out of bounds'')
      | Some i \<Rightarrow>
          (case norm_index r (width g) of
             None \<Rightarrow> Inl (IndexError ''index out of bounds'')
           | Some j \<Rightarrow> Inr (centre_weight (np_flip2 g) i j)))"

text \<open>
  With weights, \<open>np.flip(weights)\<close> is a view of \<open>weights\<close> when that is an array: the two
  assignments to \<open>kernel[r,r]\<close> write into the array of the caller, which the store
  records. When \<open>weights\<close> is a list, \<open>np.flip\<close> first makes an array of it, and the writes
  go to that new array. The store is returned also when an exception is raised.
\<close>

definition weights_kernel ::
  "store \<Rightarrow> addr \<Rightarrow> int \<Rightarrow> store \<times> (error + (int list list \<times> int))" where
  "weights_kernel h a r =
     (case h ! a of
        NdArray2 g \<Rightarrow>
          (case flipped_kernel g r of
             Inl e \<Rightarrow> (h, Inl e)
           | Inr (k, ws) \<Rightarrow> (h[a := NdArray2 (np_flip2 k)], Inr (k, ws)))
      | NdArray1 xs \<Rightarrow> (h, Inl (IndexError ''too many indices for array''))
      | PyList vs \<Rightarrow>
          (case np_array (PyList vs) of
             Inl e \<Rightarrow> (h, Inl e)
           | Inr (NdArray2 g) \<Rightarrow> (h, flipped_kernel g r)
           | Inr v \<Rightarrow> (h, Inl (IndexError ''too many indices for array'')))
      | v \<Rightarrow> (h, Inl (TypeError ''object does not support item assignment'')))"

definition LifeLike_kernel ::
  "store \<Rightarrow> int \<Rightarrow> addr option \<Rightarrow> store \<times> (error + (int list list \<times> int))" where
  "LifeLike_kernel h r weights =
     (case weights of
        None \<Rightarrow> (h, ones_kernel r)
      | Some a \<Rightarrow>
          (case py_not (h ! a) of
             Inl e \<Rightarrow> (h, Inl e)
           | Inr True \<Rightarrow> (h, ones_kernel r)
           | Inr False \<Rightarrow> weights_kernel h a r))"

definition LifeLike_parse ::
  "store \<Rightarrow> rule_spec \<Rightarrow> int \<Rightarrow> addr option \<Rightarrow> store \<times> (error + (pyval \<times> int list list))" where
  "LifeLike_parse h rule_string r weights =
     (case LifeLike_kernel h r weights of
        (h', Inl e) \<Rightarrow> (h', Inl e)
      | (h', Inr (k, weight_sum)) \<Rightarrow>
          (case rule_sets rule_string of
             Inl e \<Rightarrow> (h', Inl e)
           | Inr (live, survive) \<Rightarrow>
               (h', Inr (NdArray1 (map (\<lambda>i. if i \<in> set (live @ map (\<lambda>i. weight_sum + 1 + i) survive)
                                              then 1 else 0)
                                     [0 .. 2 * (weight_sum + 1) - 1]),
                         k))))"

definition LifeLike ::
  "store \<Rightarrow> rule_spec \<Rightarrow> string \<Rightarrow> int \<Rightarrow> int \<Rightarrow> addr option \<Rightarrow> store \<times> (error + ConvCA)" where
  "LifeLike h rule_string edg fill r weights =
     (case LifeLike_parse h rule_string r weights of
        (h', Inl e) \<Rightarrow> (h', Inl e)
      | (h', Inr (upd, k)) \<Rightarrow> (h', ConvCA_init LifeLike_cls upd k edg fill))"

section \<open>NonTotalistic: rules on the whole neighbourhood\<close>

text \<open>\<open>str.lower()\<close>, on ASCII letters.\<close>

definition lower :: "string \<Rightarrow> string" where
  "lower s = map (\<lambda>c. if 65 \<le> (of_char c :: nat) \<and> (of_char c :: nat) \<le> 90
                       then char_of ((of_char c :: nat) + 32) else c) s"

definition nb_sizes :: "(string \<times> nat) list" where
  "nb_sizes = [(''moore'', 9), (''von neumann'', 5), (''extended'', 9)]"

definition nb_patterns :: "(string \<times> int list list) list" where
  "nb_patterns =
     [(''moore'', [[1,1,1],
                  [1,1,1],
                  [1,1,1]]),
      (''von neumann'', [[0,1,0],
                        [1,1,1],
                        [0,1,0]]),
      (''extended'', [[0,0,1,0,0],
                     [0,0,1,0,0],
                     [1,1,1,1,1],
                     [0,0,1,0,0],
                     [0,0,1,0,0]])]"

definition nb_exponents :: "(string \<times> int list list) list" where
  "nb_exponents =
     [(''moore'', np_flip2 [[0,1,2],
                           [3,4,5],
                           [6,7,8]]),
      (''von neumann'', np_flip2 [[0,0,0],
                                 [1,2,3],
                                 [0,4,0]]),
      (''extended'', np_flip2 [[0,0,0,0,0],
                              [0,0,1,0,0],
                              [2,3,4,5,6],
                              [0,0,7,0,0],
                              [0,0,8,0,0]])]"

text \<open>
  The arrays of \<open>nb_patterns\<close> and \<open>nb_exponents\<close> hold 64-bit integers, and numpy computes
  on them modulo \<open>2 ^ 64\<close>: \<open>int64 x\<close> is the signed 64-bit integer that the integer \<open>x\<close>
  wraps to.
\<close>

definition int64 :: "int \<Rightarrow> int" where
  "int64 x = (x + 2 ^ 63) mod 2 ^ 64 - 2 ^ 63"

text \<open>
  \<open>parse_kernel\<close>: \<open>pattern * (base * pattern) ** exponents\<close>, cell by cell. In
  \<open>base * pattern\<close> the Python integer \<open>base\<close> is converted to a 64-bit integer, which raises
  OverflowError (numpy 2) when it does not fit; the product with a cell of the pattern, 0
  or 1, then fits. The power is taken in 64 bits and wraps; the exponents are not negative.
\<close>

definition NonTotalistic_parse_kernel :: "int \<Rightarrow> string \<Rightarrow> error + int list list" where
  "NonTotalistic_parse_kernel base nb =
     (case map_of nb_patterns (lower nb) of
        None \<Rightarrow> Inl (ValueError ''Invalid neighbourhood type'')
      | Some pat \<Rightarrow>
          (if base < - (2 ^ 63) \<or> 2 ^ 63 \<le> base
           then Inl (OverflowError ''Python integer out of bounds for int64'')
           else
             (case map_of nb_exponents (lower nb) of
                None \<Rightarrow> Inl (KeyError (lower nb))
              | Some ex \<Rightarrow>
                  Inr (map2 (\<lambda>prow erow. map2 (\<lambda>p e. p * int64 ((base * p) ^ nat e)) prow erow)
                         pat ex))))"

text \<open>\<open>itertools.product(xs, repeat=n)\<close>: the tuples in lexicographic order, the last
  position changing fastest.\<close>

fun product_repeat :: "'a list \<Rightarrow> nat \<Rightarrow> 'a list list" where
  "product_repeat xs 0 = [[]]"
| "product_repeat xs (Suc n) = concat (map (\<lambda>x. map ((#) x) (product_repeat xs n)) xs)"

definition py_range :: "int \<Rightarrow> int list" where
  "py_range n = map int [0..<nat n]"

definition reshape :: "nat \<Rightarrow> nat \<Rightarrow> int list \<Rightarrow> int list list" where
  "reshape rows cols xs = map (\<lambda>i. take cols (drop (i * cols) xs)) [0..<rows]"

text \<open>
  A rule function takes the neighbourhood (a 3x3 array for Moore, a one-dimensional array
  otherwise) and returns the new state, an integer.
\<close>

definition func_to_update_array :: "(pyval \<Rightarrow> int) \<Rightarrow> int \<Rightarrow> string \<Rightarrow> error + pyval" where
  "func_to_update_array func base nb =
     (case map_of nb_sizes (lower nb) of
        None \<Rightarrow> Inl (KeyError (lower nb))
      | Some sz \<Rightarrow>
          np_array (PyList (map (\<lambda>poss. PyInt (func (if lower nb = ''moore''
                                                     then NdArray2 (reshape 3 3 (rev poss))
                                                     else NdArray1 (rev poss))))
                              (product_repeat (py_range base) sz))))"

datatype rule_arg = Callable "pyval \<Rightarrow> int" | NotCallable pyval

definition NonTotalistic_parse_rule :: "rule_arg \<Rightarrow> int \<Rightarrow> string \<Rightarrow> error + pyval" where
  "NonTotalistic_parse_rule rule base nb =
     (case rule of
        Callable func \<Rightarrow> func_to_update_array func base nb
      | NotCallable v \<Rightarrow> Inr v)"

definition NonTotalistic ::
  "rule_arg \<Rightarrow> int \<Rightarrow> string \<Rightarrow> string \<Rightarrow> int \<Rightarrow> error + ConvCA" where
  "NonTotalistic rule base nb edg fill =
     (case NonTotalistic_parse_kernel base nb of
        Inl e \<Rightarrow> Inl e
      | Inr k \<Rightarrow>
          (case NonTotalistic_parse_rule rule base nb of
             Inl e \<Rightarrow> Inl e
           | Inr upd \<Rightarrow> ConvCA_init NonTotalistic_cls upd k edg fill))"

subsection \<open>Snapshots\<close>

text \<open>
  This notion states the properties of \<open>copy_state\<close> and \<open>n_generations\<close>. What
  \<open>copy_state\<close> copies when the state array has the value \<open>v\<close>: the array itself, and for an
  \<open>ECA\<close> its first row.
\<close>

definition snapshot_of :: "ConvCA \<Rightarrow> pyval \<Rightarrow> pyval" where
  "snapshot_of ca v =
     (if cls ca = ECA_cls then (case v of NdArray2 (r # rs) \<Rightarrow> NdArray1 r | w \<Rightarrow> w) else v)"

subsection \<open>Neighbourhood patterns and their codes\<close>

text \<open>
  These notions state the properties of the update table; the code has no function for
  them. A pattern is the list of the states of a neighbourhood in reading order (for von
  Neumann \<open>[a,b,c,d,e]\<close> is \<open>a\<close> above \<open>b c d\<close> above \<open>e\<close>, as the docstring of
  \<open>func_to_update_array\<close> has it). \<open>place pat p\<close> lays the pattern over the cells of the
  mask \<open>pat\<close> that are 1, in reading order, and puts 0 elsewhere: the window of the grid that
  shows this pattern around its centre.
\<close>

fun place_row :: "int list \<Rightarrow> int list \<Rightarrow> int list \<times> int list" where
  "place_row [] p = ([], p)"
| "place_row (m # ms) p =
     (if m = 0 then (case place_row ms p of (row, rest) \<Rightarrow> (0 # row, rest))
      else (case place_row ms (tl p) of (row, rest) \<Rightarrow> (hd p # row, rest)))"

fun place :: "int list list \<Rightarrow> int list \<Rightarrow> int list list" where
  "place [] p = []"
| "place (ms # mss) p = (case place_row ms p of (row, rest) \<Rightarrow> row # place mss rest)"

text \<open>
  The code of a pattern under a kernel: the value that \<open>convolve2d\<close> gives at the centre
  of the window that shows the pattern.
\<close>

definition pattern_code :: "string \<Rightarrow> int \<Rightarrow> int list list \<Rightarrow> int list list \<Rightarrow> int list \<Rightarrow> int" where
  "pattern_code boundary fillvalue pat k p =
     conv_cell boundary fillvalue (place pat p) k ((length pat - 1) div 2) ((length pat - 1) div 2)"

text \<open>The argument that the rule function gets for a pattern.\<close>

definition pattern_arg :: "string \<Rightarrow> int list \<Rightarrow> pyval" where
  "pattern_arg nb p = (if lower nb = ''moore'' then NdArray2 (reshape 3 3 p) else NdArray1 p)"

text \<open>The position of a tuple in the lexicographic order of the tuples over \<open>0..b-1\<close>.\<close>

fun lex_index :: "nat \<Rightarrow> int list \<Rightarrow> nat" where
  "lex_index b [] = 0"
| "lex_index b (x # t) = nat x * b ^ length t + lex_index b t"

section \<open>Elementary automata: rule numbers, rule 0 and rule 255\<close>

lemma upt_3: "[0..<3] = [0, 1, 2]"
  by (simp add: upt_rec)

lemma ECA_conv_cell:
  "conv_cell ''wrap'' fill [xs] [[1, 2, 4]] 0 n =
     xs ! nat ((int n + 1) mod int (length xs))
     + 2 * xs ! nat (int n mod int (length xs))
     + 4 * xs ! nat ((int n - 1) mod int (length xs))"
  apply (simp add: conv_cell_def width_def upt_3)
  apply (simp add: boundary_read_def width_def)
  done

lemma bit_cell:
  assumes "list_all (\<lambda>x. x = 0 \<or> x = 1) xs" and "xs \<noteq> []"
  shows "xs ! nat (i mod int (length xs)) \<in> {0, 1}"
proof -
  have "nat (i mod int (length xs)) < length xs"
    using assms(2) by (simp add: nat_less_iff)
  then show ?thesis
    using assms(1) by (auto simp: list_all_length)
qed

lemma ECA_conv_range:
  assumes "list_all (\<lambda>x. x = 0 \<or> x = 1) xs" and "n < length xs"
  shows "0 \<le> conv_cell ''wrap'' fill [xs] [[1, 2, 4]] 0 n
         \<and> conv_cell ''wrap'' fill [xs] [[1, 2, 4]] 0 n < 8"
proof -
  have ne: "xs \<noteq> []" using assms(2) by auto
  note b = bit_cell [OF assms(1) ne]
  show ?thesis
    unfolding ECA_conv_cell
    using b [of "int n + 1"] b [of "int n"] b [of "int n - 1"] by auto
qed

lemma const_table_lookup:
  assumes "0 \<le> v" and "v < 8"
  shows "norm_index v 8 \<noteq> None \<and> replicate 8 c ! the (norm_index v 8) = c"
  using assms by (simp add: norm_index_def)

lemma map_const:
  "\<forall>v \<in> set cs. f v = c \<Longrightarrow> map f cs = replicate (length cs) c"
  by (induction cs) simp_all

lemma const_table_row:
  assumes "\<forall>v \<in> set cs. 0 \<le> v \<and> v < 8"
  shows "take_cells (replicate 8 c) [cs] = Inr (NdArray2 [replicate (length cs) c])"
proof -
  have ok: "list_all (\<lambda>v. norm_index v 8 \<noteq> None) cs"
    unfolding list_all_iff
  proof
    fix v assume "v \<in> set cs"
    then have "0 \<le> v" and "v < 8" using assms by auto
    then show "norm_index v 8 \<noteq> None" by (simp add: norm_index_def)
  qed
  have "\<forall>v \<in> set cs. replicate 8 c ! the (norm_index v 8) = c"
  proof
    fix v assume "v \<in> set cs"
    then have "0 \<le> v" and "v < 8" using assms by auto
    then show "replicate 8 c ! the (norm_index v 8) = c" by (simp add: norm_index_def)
  qed
  then have m: "map (\<lambda>v. replicate 8 c ! the (norm_index v 8)) cs = replicate (length cs) c"
    by (rule map_const)
  have "take_cells (replicate 8 c) [cs]
          = Inr (NdArray2 [map (\<lambda>v. replicate 8 c ! the (norm_index v 8)) cs])"
    using ok by (simp add: take_cells_def)
  then show ?thesis
    by (simp only: m)
qed

text \<open>With a table of eight equal entries, every cell of the next row is that entry.\<close>

lemma ECA_const_step:
  assumes "list_all (\<lambda>x. x = 0 \<or> x = 1) xs"
    and "kernel ca = [[1, 2, 4]]" and "convolve_boundary ca = ''wrap''"
    and "update_array ca = NdArray1 (replicate 8 c)"
  shows "step_grid ca [xs] = Inr (NdArray2 [replicate (length xs) c])"
proof -
  define cs where "cs = map (\<lambda>n. conv_cell ''wrap'' (edge_fill ca) [xs] [[1, 2, 4]] 0 n) [0..<length xs]"
  have conv: "convolve2d [xs] [[1, 2, 4]] ''wrap'' (edge_fill ca) = Inr [cs]"
    by (simp add: convolve2d_def width_def cs_def)
  have "\<forall>v \<in> set cs. 0 \<le> v \<and> v < 8"
    using ECA_conv_range [OF assms(1)] by (auto simp: cs_def)
  then have "take_cells (replicate 8 c) [cs] = Inr (NdArray2 [replicate (length cs) c])"
    by (rule const_table_row)
  moreover have "length cs = length xs"
    by (simp add: cs_def)
  ultimately show ?thesis
    using conv assms(2-4) by (simp add: step_grid_def)
qed

lemma replicate_8: "replicate 8 c = [c, c, c, c, c, c, c, c]"
  by (simp add: numeral_eq_Suc)

lemma format_08b_0: "map int_of_digit (rev (format_08b 0)) = [0, 0, 0, 0, 0, 0, 0, 0]"
  by code_simp

lemma format_08b_255: "map int_of_digit (rev (format_08b 255)) = [1, 1, 1, 1, 1, 1, 1, 1]"
  by code_simp

lemma ECA_0: "ECA (PyInt 0) ''wrap'' fill =
  Inr \<lparr>cls = ECA_cls, convolve_boundary = ''wrap'', update_array = NdArray1 (replicate 8 0),
       kernel = [[1, 2, 4]], edges = ''wrap'', edge_fill = fill, cell_array = None\<rparr>"
  by (simp add: ECA_def ConvCA_init_def format_08b_0 replicate_8)

lemma ECA_255: "ECA (PyInt 255) ''wrap'' fill =
  Inr \<lparr>cls = ECA_cls, convolve_boundary = ''wrap'', update_array = NdArray1 (replicate 8 1),
       kernel = [[1, 2, 4]], edges = ''wrap'', edge_fill = fill, cell_array = None\<rparr>"
  by (simp add: ECA_def ConvCA_init_def format_08b_255 replicate_8)

lemma ECA_set_state_row:
  assumes "int_row v = Some xs"
  shows "np_array (PyList [v]) = Inr (NdArray2 [xs])"
  using assms by (cases v) (auto split: if_splits)

lemma ECA_one_step:
  assumes "int_row (h ! a) = Some xs" and "list_all (\<lambda>x. x = 0 \<or> x = 1) xs"
    and "ca = \<lparr>cls = ECA_cls, convolve_boundary = ''wrap'', update_array = NdArray1 (replicate 8 c),
       kernel = [[1, 2, 4]], edges = ''wrap'', edge_fill = fill, cell_array = None\<rparr>"
  shows "\<exists>h1 ca1 h2 ca2 h3 s.
           set_state h ca a = Inr (h1, ca1) \<and> step h1 ca1 = Inr (h2, ca2)
           \<and> copy_state h2 ca2 = Inr (h3, s) \<and> h3 ! s = NdArray1 (replicate (length xs) c)"
proof -
  let ?h1 = "h @ [NdArray2 [xs]]"
  let ?ca1 = "ca\<lparr>cell_array := Some (length h)\<rparr>"
  let ?h2 = "?h1 @ [NdArray2 [replicate (length xs) c]]"
  let ?ca2 = "ca\<lparr>cell_array := Some (length ?h1)\<rparr>"
  have s1: "set_state h ca a = Inr (?h1, ?ca1)"
    using ECA_set_state_row [OF assms(1)] assms(3) by (simp add: set_state_def alloc_def)
  have g: "step_grid ?ca1 [xs] = Inr (NdArray2 [replicate (length xs) c])"
    by (rule ECA_const_step [OF assms(2)]) (simp_all add: assms(3))
  have s2: "step ?h1 ?ca1 = Inr (?h2, ?ca2)"
    using g by (simp add: step_def step_value_def alloc_def nth_append)
  have s3: "copy_state ?h2 ?ca2 = Inr (?h2 @ [NdArray1 (replicate (length xs) c)], length ?h2)"
    by (simp add: copy_state_def ECA_copy_state_def alloc_def assms(3) nth_append)
  show ?thesis
    using s1 s2 s3 by (intro exI conjI) (assumption+, simp add: nth_append)
qed

text \<open>
  Claim C5. The caller's state is a one-dimensional array or a list of ints, the cells
  \<open>xs\<close>, all 0 or 1. Building \<open>ECA(0, edges="wrap")\<close>, setting that state, one \<open>step()\<close> and
  \<open>copy_state()\<close> all succeed and return a row of zeros of the same length; with \<open>ECA(255)\<close>
  the row is all ones.
\<close>

theorem ECA_rule_0_and_rule_255:
  assumes "int_row (h ! a) = Some xs" and "list_all (\<lambda>x. x = 0 \<or> x = 1) xs"
  shows "(\<exists>ca h1 ca1 h2 ca2 h3 s.
            ECA (PyInt 0) ''wrap'' fill = Inr ca \<and> set_state h ca a = Inr (h1, ca1)
            \<and> step h1 ca1 = Inr (h2, ca2) \<and> copy_state h2 ca2 = Inr (h3, s)
            \<and> h3 ! s = NdArray1 (replicate (length xs) 0))
       \<and> (\<exists>ca h1 ca1 h2 ca2 h3 s.
            ECA (PyInt 255) ''wrap'' fill = Inr ca \<and> set_state h ca a = Inr (h1, ca1)
            \<and> step h1 ca1 = Inr (h2, ca2) \<and> copy_state h2 ca2 = Inr (h3, s)
            \<and> h3 ! s = NdArray1 (replicate (length xs) 1))"
  using ECA_one_step [OF assms refl, of 0 fill] ECA_one_step [OF assms refl, of 1 fill]
  unfolding ECA_0 ECA_255 by blast

theorem ECA_rule_0_and_rule_255_witness:
  "\<exists>ca h1 ca1 h2 ca2 h3 s.
     ECA (PyInt 255) ''wrap'' 0 = Inr ca
     \<and> set_state [PyList [PyInt 0, PyInt 1, PyInt 1, PyInt 0, PyInt 0]] ca 0 = Inr (h1, ca1)
     \<and> step h1 ca1 = Inr (h2, ca2) \<and> copy_state h2 ca2 = Inr (h3, s)
     \<and> h3 ! s = NdArray1 [1, 1, 1, 1, 1]"
  using ECA_rule_0_and_rule_255 [of "[PyList [PyInt 0, PyInt 1, PyInt 1, PyInt 0, PyInt 0]]" 0
      "[0, 1, 1, 0, 0]" 0]
  by simp

text \<open>
  Claim C9. \<open>ECA(n)\<close> raises one of the two "Not a valid rule" exceptions (TypeError for
  a value whose type is not \<open>int\<close>, ValueError for an integer outside 0..255) exactly when
  \<open>n\<close> is not an integer in 0..255; for an integer in 0..255 and either edge mode the
  construction returns an automaton.
\<close>

theorem ECA_rule_number_check:
  "(ECA n edg fill = Inl (TypeError ''Not a valid rule'')
      \<or> ECA n edg fill = Inl (ValueError ''Not a valid rule''))
     = (\<not> (\<exists>i. n = PyInt i \<and> 0 \<le> i \<and> i \<le> 255))
   \<and> ((\<exists>i. n = PyInt i \<and> 0 \<le> i \<and> i \<le> 255) \<and> (edg = ''wrap'' \<or> edg = ''fixed'')
        \<longrightarrow> (\<exists>ca. ECA n edg fill = Inr ca))"
  by (cases n) (auto simp: ECA_def ConvCA_init_def)

theorem ECA_rule_number_check_witness:
  "(\<exists>ca. ECA (PyInt 110) ''wrap'' 0 = Inr ca)
   \<and> ECA (PyInt 256) ''wrap'' 0 = Inl (ValueError ''Not a valid rule'')
   \<and> ECA (PyBool True) ''fixed'' 0 = Inl (TypeError ''Not a valid rule'')"
  using ECA_rule_number_check [of "PyInt 110" "''wrap''" 0]
    ECA_rule_number_check [of "PyInt 256" "''wrap''" 0]
    ECA_rule_number_check [of "PyBool True" "''fixed''" 0]
  by (simp add: ECA_def)

section \<open>Conway's Game of Life on a 3x3 grid\<close>

lemma wrap_ignores_fill:
  "convolve2d g k ''wrap'' fill = convolve2d g k ''wrap'' 0"
  by (simp add: convolve2d_def conv_cell_def boundary_read_def)

lemma life_rule_sets: "rule_sets (RuleString ''B3/S23'') = Inr ([3], [2, 3])"
  by code_simp

lemma life_kernel: "ones_kernel 1 = Inr ([[1, 1, 1], [1, 9, 1], [1, 1, 1]], 8)"
  by code_simp

lemma life_table:
  "map (\<lambda>i. if i \<in> set ([3] @ map (\<lambda>i. 8 + 1 + i) [2, 3]) then 1 else 0) [0 .. 2 * (8 + 1) - 1]
     = [0, 0, 0, 1, 0, 0, 0, 0, 0, 0, 0, 1, 1, 0, 0, 0, 0, 0 :: int]"
  by code_simp

lemma life_engine:
  "LifeLike h (RuleString ''B3/S23'') ''wrap'' fill 1 None =
     (h, Inr \<lparr>cls = LifeLike_cls, convolve_boundary = ''wrap'',
              update_array = NdArray1 [0, 0, 0, 1, 0, 0, 0, 0, 0, 0, 0, 1, 1, 0, 0, 0, 0, 0],
              kernel = [[1, 1, 1], [1, 9, 1], [1, 1, 1]], edges = ''wrap'', edge_fill = fill,
              cell_array = None\<rparr>)"
  using life_table
  by (simp add: LifeLike_def LifeLike_parse_def LifeLike_kernel_def life_kernel life_rule_sets
      ConvCA_init_def)

lemma life_conv:
  "convolve2d [[0, 0, 0], [0, 1, 0], [0, 0, 0]] [[1, 1, 1], [1, 9, 1], [1, 1, 1]] ''wrap'' 0
     = Inr [[1, 1, 1], [1, 9, 1], [1, 1, 1]]"
  by code_simp

lemma life_lookup:
  "take_cells [0, 0, 0, 1, 0, 0, 0, 0, 0, 0, 0, 1, 1, 0, 0, 0, 0, 0] [[1, 1, 1], [1, 9, 1], [1, 1, 1]]
     = Inr (NdArray2 [[0, 0, 0], [0, 0, 0], [0, 0, 0]])"
  by code_simp

text \<open>
  Claim C6. Conway's Game of Life (\<open>"B3/S23"\<close>, radius 1, no weights, \<open>edges="wrap"\<close>) on the
  3x3 grid whose only live cell is the centre, given by the caller as an array or as a
  nested list: after \<open>set_state\<close> and one \<open>step()\<close>, \<open>copy_state()\<close> returns the grid of zeros.
\<close>

theorem life_isolated_cell_dies:
  assumes "np_array (h ! a) = Inr (NdArray2 [[0, 0, 0], [0, 1, 0], [0, 0, 0]])"
  shows "\<exists>h0 ca h1 ca1 h2 ca2 h3 s.
           LifeLike h (RuleString ''B3/S23'') ''wrap'' fill 1 None = (h0, Inr ca)
           \<and> set_state h0 ca a = Inr (h1, ca1) \<and> step h1 ca1 = Inr (h2, ca2)
           \<and> copy_state h2 ca2 = Inr (h3, s)
           \<and> h3 ! s = NdArray2 [[0, 0, 0], [0, 0, 0], [0, 0, 0]]"
proof -
  let ?ca = "\<lparr>cls = LifeLike_cls, convolve_boundary = ''wrap'',
              update_array = NdArray1 [0, 0, 0, 1, 0, 0, 0, 0, 0, 0, 0, 1, 1, 0, 0, 0, 0, 0],
              kernel = [[1, 1, 1], [1, 9, 1], [1, 1, 1]], edges = ''wrap'', edge_fill = fill,
              cell_array = None\<rparr>"
  let ?g = "NdArray2 [[0, 0, 0], [0, 1, 0], [0, 0, 0]]"
  let ?z = "NdArray2 [[0, 0, 0], [0, 0, 0], [0, 0, 0]]"
  let ?ca1 = "?ca\<lparr>cell_array := Some (length h)\<rparr>"
  let ?ca2 = "?ca\<lparr>cell_array := Some (Suc (length h))\<rparr>"
  have s1: "set_state h ?ca a = Inr (h @ [?g], ?ca1)"
    using assms by (simp add: set_state_def alloc_def)
  have g: "step_grid ?ca1 [[0, 0, 0], [0, 1, 0], [0, 0, 0]] = Inr ?z"
    by (simp add: step_grid_def wrap_ignores_fill [of _ _ fill] life_conv life_lookup)
  have s2: "step (h @ [?g]) ?ca1 = Inr (h @ [?g, ?z], ?ca2)"
    using g by (simp add: step_def step_value_def alloc_def nth_append)
  have s3: "copy_state (h @ [?g, ?z]) ?ca2 = Inr (h @ [?g, ?z, ?z], Suc (Suc (length h)))"
    by (simp add: copy_state_def ConvCA_copy_state_def alloc_def nth_append)
  have s4: "(h @ [?g, ?z, ?z]) ! Suc (Suc (length h)) = ?z"
    by (simp add: nth_append)
  show ?thesis
    unfolding life_engine using s1 s2 s3 s4 by blast
qed

theorem life_isolated_cell_dies_witness:
  "\<exists>h0 ca h1 ca1 h2 ca2 h3 s.
     LifeLike [NdArray2 [[0, 0, 0], [0, 1, 0], [0, 0, 0]]] (RuleString ''B3/S23'') ''wrap'' 0 1 None
       = (h0, Inr ca)
     \<and> set_state h0 ca 0 = Inr (h1, ca1) \<and> step h1 ca1 = Inr (h2, ca2)
     \<and> copy_state h2 ca2 = Inr (h3, s)
     \<and> h3 ! s = NdArray2 [[0, 0, 0], [0, 0, 0], [0, 0, 0]]"
  using life_isolated_cell_dies [of "[NdArray2 [[0, 0, 0], [0, 1, 0], [0, 0, 0]]]" 0 0]
  by simp

section \<open>set_state and copy_state\<close>

lemma copy_of_state:
  assumes "cell_array ca = Some c" and "h ! c = NdArray2 g" and "cls ca = ECA_cls \<longrightarrow> g \<noteq> []"
  shows "copy_state h ca = Inr (h @ [snapshot_of ca (NdArray2 g)], length h)"
  using assms
  by (cases g)
     (auto simp: copy_state_def ConvCA_copy_state_def ECA_copy_state_def alloc_def snapshot_of_def)

text \<open>
  The round trip, once the array \<open>u\<close> that \<open>set_state\<close> makes and the array \<open>w\<close> that
  \<open>copy_state\<close> then returns are known.
\<close>

lemma set_then_copy:
  assumes "a < length h"
    and "set_state h ca a = Inr (h @ [NdArray2 g], ca\<lparr>cell_array := Some (length h)\<rparr>)"
    and "cls ca = ECA_cls \<longrightarrow> g \<noteq> []"
    and "u = NdArray2 g" and "w = snapshot_of ca u"
  shows "\<exists>h1 ca1 c h2 s.
           set_state h ca a = Inr (h1, ca1) \<and> cell_array ca1 = Some c
           \<and> copy_state h1 ca1 = Inr (h2, s) \<and> h2 ! s = w
           \<and> c \<noteq> a \<and> s \<noteq> c \<and> s \<noteq> a \<and> h1 ! c = u
           \<and> (\<forall>v. (h1[a := v]) ! c = u
                  \<and> (\<exists>h3 s'. copy_state (h1[a := v]) ca1 = Inr (h3, s') \<and> h3 ! s' = w))
           \<and> (\<forall>v. (h2[s := v]) ! c = u
                  \<and> (\<exists>h3 s'. copy_state (h2[s := v]) ca1 = Inr (h3, s') \<and> h3 ! s' = w))"
proof -
  let ?h1 = "h @ [u]"
  let ?ca1 = "ca\<lparr>cell_array := Some (length h)\<rparr>"
  let ?h2 = "?h1 @ [w]"
  have s1: "set_state h ca a = Inr (?h1, ?ca1)"
    using assms(2,4) by simp
  have c1: "cell_array ?ca1 = Some (length h)" and k: "cls ?ca1 = ECA_cls \<longrightarrow> g \<noteq> []"
    using assms(3) by simp_all
  have sn: "snapshot_of ?ca1 (NdArray2 g) = w"
    using assms(4,5) by (simp add: snapshot_of_def)
  have copy: "copy_state h' ?ca1 = Inr (h' @ [w], length h')" if "h' ! length h = u" for h'
    using copy_of_state [OF c1 _ k, of h'] that assms(4) sn by simp
  have s2: "copy_state ?h1 ?ca1 = Inr (?h2, length ?h1)"
    by (rule copy) simp
  have m1: "(?h1[a := v]) ! length h = u" for v
    using assms(1) by (simp add: nth_append list_update_append)
  have m2: "(?h2[length ?h1 := v]) ! length h = u" for v
    by (simp add: nth_append list_update_append)
  have o1: "\<exists>h3 s'. copy_state (?h1[a := v]) ?ca1 = Inr (h3, s') \<and> h3 ! s' = w" for v
    using copy [OF m1 [of v]] by (simp add: nth_append)
  have o2: "\<exists>h3 s'. copy_state (?h2[length ?h1 := v]) ?ca1 = Inr (h3, s') \<and> h3 ! s' = w" for v
    using copy [OF m2 [of v]] by (simp add: nth_append)
  have "set_state h ca a = Inr (?h1, ?ca1) \<and> cell_array ?ca1 = Some (length h)
           \<and> copy_state ?h1 ?ca1 = Inr (?h2, length ?h1) \<and> ?h2 ! length ?h1 = w
           \<and> length h \<noteq> a \<and> length ?h1 \<noteq> length h \<and> length ?h1 \<noteq> a \<and> ?h1 ! length h = u
           \<and> (\<forall>v. (?h1[a := v]) ! length h = u
                  \<and> (\<exists>h3 s'. copy_state (?h1[a := v]) ?ca1 = Inr (h3, s') \<and> h3 ! s' = w))
           \<and> (\<forall>v. (?h2[length ?h1 := v]) ! length h = u
                  \<and> (\<exists>h3 s'. copy_state (?h2[length ?h1 := v]) ?ca1 = Inr (h3, s') \<and> h3 ! s' = w))"
    using s1 s2 m1 m2 o1 o2 assms(1) by (simp add: nth_append)
  then show ?thesis by blast
qed

text \<open>
  Claim C4. The caller's state is the object at address \<open>a\<close>: a grid \<open>g\<close> (an array, or a
  nested list that denotes \<open>g\<close>), or for an \<open>ECA\<close> a row \<open>xs\<close> (an array or a list of ints).
  \<open>set_state\<close> binds the engine to a new array \<open>c\<close> holding \<open>u\<close> (the grid; for an \<open>ECA\<close> the
  grid of the one row), and \<open>copy_state\<close> returns another new array \<open>s\<close> holding \<open>w\<close>, equal
  to what the caller gave. Whatever the caller then writes into its object, or into the
  returned copy, the array of the engine still holds \<open>u\<close> and \<open>copy_state\<close> still returns
  \<open>w\<close>.
\<close>

theorem set_state_copy_state_no_aliasing:
  assumes "a < length h"
    and "cls ca \<noteq> ECA_cls \<and> np_array (h ! a) = Inr (NdArray2 g)
           \<and> u = NdArray2 g \<and> w = NdArray2 g
         \<or> cls ca = ECA_cls \<and> int_row (h ! a) = Some xs
           \<and> u = NdArray2 [xs] \<and> w = NdArray1 xs"
  shows "\<exists>h1 ca1 c h2 s.
           set_state h ca a = Inr (h1, ca1) \<and> cell_array ca1 = Some c
           \<and> copy_state h1 ca1 = Inr (h2, s) \<and> h2 ! s = w
           \<and> c \<noteq> a \<and> s \<noteq> c \<and> s \<noteq> a \<and> h1 ! c = u
           \<and> (\<forall>v. (h1[a := v]) ! c = u
                  \<and> (\<exists>h3 s'. copy_state (h1[a := v]) ca1 = Inr (h3, s') \<and> h3 ! s' = w))
           \<and> (\<forall>v. (h2[s := v]) ! c = u
                  \<and> (\<exists>h3 s'. copy_state (h2[s := v]) ca1 = Inr (h3, s') \<and> h3 ! s' = w))"
  using assms(2)
proof (elim disjE conjE)
  assume "cls ca \<noteq> ECA_cls" and "np_array (h ! a) = Inr (NdArray2 g)"
    and "u = NdArray2 g" and "w = NdArray2 g"
  then show ?thesis
    by (intro set_then_copy [OF assms(1), of ca g]) (simp_all add: set_state_def alloc_def snapshot_of_def)
next
  assume "cls ca = ECA_cls" and "int_row (h ! a) = Some xs"
    and "u = NdArray2 [xs]" and "w = NdArray1 xs"
  then show ?thesis
    using ECA_set_state_row [of "h ! a" xs]
    by (intro set_then_copy [OF assms(1), of ca "[xs]"]) (simp_all add: set_state_def alloc_def snapshot_of_def)
qed

theorem set_state_copy_state_no_aliasing_witness:
  "\<exists>h1 ca1 h2 s.
     set_state [NdArray2 [[1, 0], [0, 1]]]
       \<lparr>cls = ConvCA_cls, convolve_boundary = ''wrap'', update_array = NdArray1 [0, 1],
        kernel = [[1]], edges = ''wrap'', edge_fill = 0, cell_array = None\<rparr> 0 = Inr (h1, ca1)
     \<and> copy_state h1 ca1 = Inr (h2, s) \<and> h2 ! s = NdArray2 [[1, 0], [0, 1]]
     \<and> (\<forall>v. \<exists>h3 s'. copy_state (h1[0 := v]) ca1 = Inr (h3, s') \<and> h3 ! s' = NdArray2 [[1, 0], [0, 1]])"
  using set_state_copy_state_no_aliasing [where a = 0 and h = "[NdArray2 [[1, 0], [0, 1]]]"
      and g = "[[1, 0], [0, 1]]" and u = "NdArray2 [[1, 0], [0, 1]]"
      and w = "NdArray2 [[1, 0], [0, 1]]" and xs = "[]" and ca =
      "\<lparr>cls = ConvCA_cls, convolve_boundary = ''wrap'', update_array = NdArray1 [0, 1],
        kernel = [[1]], edges = ''wrap'', edge_fill = 0, cell_array = None\<rparr>"]
  by simp blast

section \<open>n_generations\<close>

lemma step_value_cell_array:
  "step_value (ca\<lparr>cell_array := x\<rparr>) v = step_value ca v"
  by (cases v) (simp_all add: step_value_def step_grid_def split: sum.splits)

lemma generations_cell_array:
  "generations (ca\<lparr>cell_array := x\<rparr>) k v = generations ca k v"
  by (induction k arbitrary: v) (simp_all add: step_value_cell_array split: sum.splits)

lemma take_cells_rows:
  assumes "take_cells tbl c = Inr w"
  shows "\<exists>g. w = NdArray2 g \<and> length g = length c"
  using assms by (auto simp: take_cells_def split: if_splits)

text \<open>A step keeps the number of rows of the grid.\<close>

lemma step_value_rows:
  assumes "step_value ca (NdArray2 g) = Inr w"
  shows "\<exists>g'. w = NdArray2 g' \<and> length g' = length g"
proof -
  obtain c where c: "convolve2d g (kernel ca) (convolve_boundary ca) (edge_fill ca) = Inr c"
    and i: "index_array (update_array ca) c = Inr w"
    using assms by (auto simp: step_value_def step_grid_def split: sum.splits)
  have "length c = length g"
    using c by (auto simp: convolve2d_def split: if_splits)
  moreover have "\<exists>g'. w = NdArray2 g' \<and> length g' = length c"
    using i by (cases "update_array ca") (auto dest: take_cells_rows)
  ultimately show ?thesis by simp
qed

lemma snapshot_of_cell_array:
  "snapshot_of (ca\<lparr>cell_array := x\<rparr>) v = snapshot_of ca v"
  by (simp add: snapshot_of_def)

lemma step_alloc:
  assumes "cell_array ca = Some c" and "step_value ca (h ! c) = Inr w"
  shows "step h ca = Inr (h @ [w], ca\<lparr>cell_array := Some (length h)\<rparr>)"
  using assms by (simp add: step_def alloc_def)

text \<open>
  Once \<open>count\<close> is positive, every resumption steps the engine and yields a copy, until
  \<open>count\<close> reaches \<open>n\<close>: with \<open>m\<close> generations to go, \<open>m\<close> snapshots and then the end.
\<close>

lemma loop_steady:
  assumes "generations ca m (NdArray2 g) = Inr w"
    and "cell_array ca = Some c" and "c < length h" and "h ! c = NdArray2 g"
    and "cls ca = ECA_cls \<longrightarrow> g \<noteq> []"
    and "1 \<le> count" and "n = count + int m" and "m < fuel"
  shows "\<exists>addrs ext ca'.
           n_generations_loop fuel count n h ca = (map Yield addrs @ [StopIteration], h @ ext, ca')
           \<and> length addrs = m
           \<and> (\<forall>k<m. length h \<le> addrs ! k \<and> addrs ! k < length (h @ ext)
                  \<and> (\<exists>u. generations ca (Suc k) (NdArray2 g) = Inr u
                          \<and> (h @ ext) ! (addrs ! k) = snapshot_of ca u))"
  using assms
proof (induction m arbitrary: fuel count h ca c g)
  case 0
  obtain f where f: "fuel = Suc f" using "0.prems"(8) by (cases fuel) auto
  have "n_generations_loop fuel count n h ca = (map Yield [] @ [StopIteration], h @ [], ca)"
    using "0.prems"(6,7) by (simp add: f)
  then show ?case by blast
next
  case (Suc m)
  obtain f where f: "fuel = Suc f" and mf: "m < f" using Suc.prems(8) by (cases fuel) auto
  obtain v1 where v1: "step_value ca (NdArray2 g) = Inr v1" and g1: "generations ca m v1 = Inr w"
    using Suc.prems(1) by (auto split: sum.splits)
  obtain g' where g': "v1 = NdArray2 g'" and rows: "length g' = length g"
    using step_value_rows [OF v1] by blast
  let ?ca1 = "ca\<lparr>cell_array := Some (length h)\<rparr>"
  let ?s1 = "snapshot_of ca v1"
  let ?h2 = "h @ [v1, ?s1]"
  have ne: "cls ca = ECA_cls \<longrightarrow> g' \<noteq> []"
    using Suc.prems(5) rows by auto
  have st: "step h ca = Inr (h @ [v1], ?ca1)"
    using Suc.prems(2,4) v1 by (simp add: step_alloc)
  have "copy_state (h @ [v1]) ?ca1 = Inr ((h @ [v1]) @ [snapshot_of ?ca1 (NdArray2 g')], length (h @ [v1]))"
    using ne by (intro copy_of_state [of ?ca1 "length h"]) (simp_all add: g')
  then have cp: "copy_state (h @ [v1]) ?ca1 = Inr (?h2, Suc (length h))"
    by (simp add: g' snapshot_of_cell_array)
  have "\<exists>addrs ext ca'.
           n_generations_loop f (count + 1) n ?h2 ?ca1 = (map Yield addrs @ [StopIteration], ?h2 @ ext, ca')
           \<and> length addrs = m
           \<and> (\<forall>k<m. length ?h2 \<le> addrs ! k \<and> addrs ! k < length (?h2 @ ext)
                  \<and> (\<exists>u. generations ?ca1 (Suc k) (NdArray2 g') = Inr u
                          \<and> (?h2 @ ext) ! (addrs ! k) = snapshot_of ?ca1 u))"
  proof (rule Suc.IH [of ?ca1 g' "length h" ?h2 "count + 1" f])
    show "generations ?ca1 m (NdArray2 g') = Inr w"
      using g1 by (simp add: generations_cell_array g')
    show "cell_array ?ca1 = Some (length h)" by simp
    show "length h < length ?h2" by simp
    show "?h2 ! length h = NdArray2 g'" by (simp add: nth_append g')
    show "cls ?ca1 = ECA_cls \<longrightarrow> g' \<noteq> []" using ne by simp
    show "1 \<le> count + 1" using Suc.prems(6) by simp
    show "n = count + 1 + int m" using Suc.prems(7) by simp
    show "m < f" by (rule mf)
  qed
  then obtain addrs ext ca' where
    run: "n_generations_loop f (count + 1) n ?h2 ?ca1 = (map Yield addrs @ [StopIteration], ?h2 @ ext, ca')"
    and len: "length addrs = m"
    and snaps: "\<forall>k<m. length ?h2 \<le> addrs ! k \<and> addrs ! k < length (?h2 @ ext)
                  \<and> (\<exists>u. generations ?ca1 (Suc k) (NdArray2 g') = Inr u
                          \<and> (?h2 @ ext) ! (addrs ! k) = snapshot_of ?ca1 u)"
    by blast
  let ?addrs = "Suc (length h) # addrs"
  let ?ext = "[v1, ?s1] @ ext"
  have e: "h @ ?ext = ?h2 @ ext" by simp
  have r: "n_generations_loop fuel count n h ca = (map Yield ?addrs @ [StopIteration], h @ ?ext, ca')"
    using Suc.prems(6,7) st cp run by (simp add: f)
  have p: "length h \<le> ?addrs ! k \<and> ?addrs ! k < length (h @ ?ext)
           \<and> (\<exists>u. generations ca (Suc k) (NdArray2 g) = Inr u
                   \<and> (h @ ?ext) ! (?addrs ! k) = snapshot_of ca u)" if "k < Suc m" for k
  proof (cases k)
    case 0
    have "(h @ ?ext) ! Suc (length h) = ?s1" by (simp add: nth_append)
    then show ?thesis using 0 v1 by simp
  next
    case (Suc k')
    then have "k' < m" using that by simp
    then obtain u where b: "length ?h2 \<le> addrs ! k'" "addrs ! k' < length (?h2 @ ext)"
      and u: "generations ?ca1 (Suc k') (NdArray2 g') = Inr u"
      and s: "(?h2 @ ext) ! (addrs ! k') = snapshot_of ?ca1 u"
      using snaps by blast
    have "generations ca (Suc k') v1 = Inr u"
      using u by (simp only: generations_cell_array g')
    moreover have "generations ca (Suc (Suc k')) (NdArray2 g) = generations ca (Suc k') v1"
      using v1 by simp
    ultimately have "generations ca (Suc k) (NdArray2 g) = Inr u"
      using Suc by (simp only:)
    moreover have "(h @ ?ext) ! (?addrs ! k) = snapshot_of ca u"
      unfolding e using s Suc by (simp only: nth_Cons_Suc snapshot_of_cell_array)
    moreover have "length h \<le> ?addrs ! k \<and> ?addrs ! k < length (h @ ?ext)"
      using b Suc by simp
    ultimately show ?thesis by blast
  qed
  show ?case
    using r len p by (intro exI [of _ ?addrs] exI [of _ ?ext] exI [of _ ca']) simp
qed

text \<open>
  For negative \<open>n\<close>, \<open>count\<close> stays 0: no resumption ends the generator, and none steps the
  engine, so that every snapshot is a copy of the same state.
\<close>

lemma loop_forever:
  assumes "n < 0" and "cell_array ca = Some c" and "c < length h"
    and "h ! c = NdArray2 g" and "cls ca = ECA_cls \<longrightarrow> g \<noteq> []"
  shows "\<exists>addrs ext ca'. n_generations_loop fuel 0 n h ca = (map Yield addrs, h @ ext, ca')
           \<and> length addrs = fuel
           \<and> (\<forall>k<fuel. (h @ ext) ! (addrs ! k) = snapshot_of ca (NdArray2 g))"
  using assms
proof (induction fuel arbitrary: h)
  case 0
  have "n_generations_loop 0 0 n h ca = (map Yield [], h @ [], ca)" by simp
  then show ?case by blast
next
  case (Suc fuel)
  let ?w = "snapshot_of ca (NdArray2 g)"
  have cp: "copy_state h ca = Inr (h @ [?w], length h)"
    using Suc.prems(2,4,5) by (rule copy_of_state)
  have "\<exists>addrs ext ca'. n_generations_loop fuel 0 n (h @ [?w]) ca = (map Yield addrs, (h @ [?w]) @ ext, ca')
           \<and> length addrs = fuel
           \<and> (\<forall>k<fuel. ((h @ [?w]) @ ext) ! (addrs ! k) = ?w)"
    using Suc.prems by (intro Suc.IH) (simp_all add: nth_append)
  then obtain addrs ext ca' where
    run: "n_generations_loop fuel 0 n (h @ [?w]) ca = (map Yield addrs, (h @ [?w]) @ ext, ca')"
    and len: "length addrs = fuel"
    and same: "\<forall>k<fuel. ((h @ [?w]) @ ext) ! (addrs ! k) = ?w"
    by blast
  have r: "n_generations_loop (Suc fuel) 0 n h ca = (map Yield (length h # addrs), h @ ([?w] @ ext), ca')"
    using Suc.prems(1) cp run by simp
  have p: "(h @ ([?w] @ ext)) ! ((length h # addrs) ! k) = ?w" if "k < Suc fuel" for k
  proof (cases k)
    case 0
    then show ?thesis by (simp add: nth_append)
  next
    case (Suc k')
    then show ?thesis using same that by simp
  qed
  show ?case
    using r len p by (intro exI [of _ "length h # addrs"] exI [of _ "[?w] @ ext"] exI [of _ ca']) simp
qed

text \<open>
  Claim C1, amended. The engine holds the grid \<open>g\<close> (for an \<open>ECA\<close>, with at least one
  row), and the consumer calls \<open>next()\<close> \<open>fuel\<close> times.
  For \<open>n \<ge> 0\<close>, provided the first \<open>n - 1\<close> steps raise nothing and \<open>fuel > n\<close>: the generator
  yields exactly \<open>n\<close> snapshots and then ends. Snapshot \<open>k\<close> (from 0) is a new array, not
  one that existed at call time, and is the copy of the grid after \<open>k\<close> steps: the first is
  the state at call time, each later one is one more \<open>step()\<close>.
  For \<open>n < 0\<close>: every one of the \<open>fuel\<close> calls yields a snapshot, whatever \<open>fuel\<close> is.
\<close>

theorem n_generations_snapshots:
  assumes "cell_array ca = Some c" and "c < length h" and "h ! c = NdArray2 g"
    and "cls ca = ECA_cls \<longrightarrow> g \<noteq> []"
  shows "(0 \<le> n \<and> nat n < fuel
            \<and> (n = 0 \<or> (\<exists>w. generations ca (nat n - 1) (NdArray2 g) = Inr w)) \<longrightarrow>
          (\<exists>addrs ext ca'.
             n_generations fuel n h ca = (map Yield addrs @ [StopIteration], h @ ext, ca')
             \<and> length addrs = nat n
             \<and> (\<forall>k < nat n. length h \<le> addrs ! k \<and> addrs ! k < length (h @ ext)
                    \<and> (\<exists>u. generations ca k (NdArray2 g) = Inr u
                            \<and> (h @ ext) ! (addrs ! k) = snapshot_of ca u))))
       \<and> (n < 0 \<longrightarrow>
          (\<exists>addrs ext ca'. n_generations fuel n h ca = (map Yield addrs, h @ ext, ca')
             \<and> length addrs = fuel))"
proof (intro conjI impI)
  assume "n < 0"
  then have "\<exists>addrs ext ca'. n_generations_loop fuel 0 n h ca = (map Yield addrs, h @ ext, ca')
           \<and> length addrs = fuel
           \<and> (\<forall>k<fuel. (h @ ext) ! (addrs ! k) = snapshot_of ca (NdArray2 g))"
    using assms by (intro loop_forever [of n ca c h g]) simp_all
  then show "\<exists>addrs ext ca'. n_generations fuel n h ca = (map Yield addrs, h @ ext, ca')
             \<and> length addrs = fuel"
    unfolding n_generations_def by blast
next
  let ?v = "NdArray2 g"
  let ?s = "snapshot_of ca ?v"
  assume a: "0 \<le> n \<and> nat n < fuel \<and> (n = 0 \<or> (\<exists>w. generations ca (nat n - 1) ?v = Inr w))"
  then obtain f where f: "fuel = Suc f" and nf: "nat n \<le> f" by (cases fuel) auto
  show "\<exists>addrs ext ca'.
             n_generations fuel n h ca = (map Yield addrs @ [StopIteration], h @ ext, ca')
             \<and> length addrs = nat n
             \<and> (\<forall>k < nat n. length h \<le> addrs ! k \<and> addrs ! k < length (h @ ext)
                    \<and> (\<exists>u. generations ca k ?v = Inr u
                            \<and> (h @ ext) ! (addrs ! k) = snapshot_of ca u))"
  proof (cases "n = 0")
    case True
    have "n_generations fuel n h ca = (map Yield [] @ [StopIteration], h @ [], ca)"
      using True by (simp add: n_generations_def f)
    then show ?thesis using True by (intro exI [of _ "[]"] exI [of _ ca]) simp
  next
    case False
    then obtain w where w: "generations ca (nat n - 1) ?v = Inr w" and pos: "0 < n"
      using a by auto
    let ?h1 = "h @ [?s]"
    have cp: "copy_state h ca = Inr (?h1, length h)"
      using assms(1,3,4) by (rule copy_of_state)
    have "\<exists>addrs ext ca'.
           n_generations_loop f 1 n ?h1 ca = (map Yield addrs @ [StopIteration], ?h1 @ ext, ca')
           \<and> length addrs = nat n - 1
           \<and> (\<forall>k<nat n - 1. length ?h1 \<le> addrs ! k \<and> addrs ! k < length (?h1 @ ext)
                  \<and> (\<exists>u. generations ca (Suc k) ?v = Inr u
                          \<and> (?h1 @ ext) ! (addrs ! k) = snapshot_of ca u))"
    proof (rule loop_steady [OF w, of c])
      show "cell_array ca = Some c" by (rule assms(1))
      show "c < length ?h1" using assms(2) by simp
      show "?h1 ! c = ?v" using assms(2,3) by (simp add: nth_append)
      show "cls ca = ECA_cls \<longrightarrow> g \<noteq> []" by (rule assms(4))
      show "(1::int) \<le> 1" by simp
      show "n = 1 + int (nat n - 1)" using pos by simp
      show "nat n - 1 < f" using nf pos by simp
    qed
    then obtain addrs ext ca' where
      run: "n_generations_loop f 1 n ?h1 ca = (map Yield addrs @ [StopIteration], ?h1 @ ext, ca')"
      and len: "length addrs = nat n - 1"
      and snaps: "\<forall>k<nat n - 1. length ?h1 \<le> addrs ! k \<and> addrs ! k < length (?h1 @ ext)
                  \<and> (\<exists>u. generations ca (Suc k) ?v = Inr u
                          \<and> (?h1 @ ext) ! (addrs ! k) = snapshot_of ca u)"
      by blast
    let ?addrs = "length h # addrs"
    let ?ext = "[?s] @ ext"
    have e: "h @ ?ext = ?h1 @ ext" by simp
    have r: "n_generations fuel n h ca = (map Yield ?addrs @ [StopIteration], h @ ?ext, ca')"
      using pos cp run by (simp add: n_generations_def f)
    have l: "length ?addrs = nat n" using len pos by simp
    have p: "length h \<le> ?addrs ! k \<and> ?addrs ! k < length (h @ ?ext)
           \<and> (\<exists>u. generations ca k ?v = Inr u
                   \<and> (h @ ?ext) ! (?addrs ! k) = snapshot_of ca u)" if "k < nat n" for k
    proof (cases k)
      case 0
      then show ?thesis by (simp add: nth_append)
    next
      case (Suc k')
      then have "k' < nat n - 1" using that by simp
      then have "length ?h1 \<le> addrs ! k' \<and> addrs ! k' < length (?h1 @ ext)
                  \<and> (\<exists>u. generations ca (Suc k') ?v = Inr u
                          \<and> (?h1 @ ext) ! (addrs ! k') = snapshot_of ca u)"
        using snaps by blast
      then show ?thesis
        unfolding e using Suc by (simp only: nth_Cons_Suc) simp
    qed
    show ?thesis
      using r l p by (intro exI [of _ ?addrs] exI [of _ ?ext] exI [of _ ca']) blast
  qed
qed

lemma life_two_generations:
  "generations
     \<lparr>cls = LifeLike_cls, convolve_boundary = ''wrap'',
      update_array = NdArray1 [0, 0, 0, 1, 0, 0, 0, 0, 0, 0, 0, 1, 1, 0, 0, 0, 0, 0],
      kernel = [[1, 1, 1], [1, 9, 1], [1, 1, 1]], edges = ''wrap'', edge_fill = 0,
      cell_array = Some 0\<rparr> 1 (NdArray2 [[0, 0, 0], [0, 1, 0], [0, 0, 0]])
   = Inr (NdArray2 [[0, 0, 0], [0, 0, 0], [0, 0, 0]])"
  by code_simp

theorem n_generations_snapshots_witness:
  "\<exists>addrs ext ca'.
     n_generations 3 2 [NdArray2 [[0, 0, 0], [0, 1, 0], [0, 0, 0]]]
       \<lparr>cls = LifeLike_cls, convolve_boundary = ''wrap'',
        update_array = NdArray1 [0, 0, 0, 1, 0, 0, 0, 0, 0, 0, 0, 1, 1, 0, 0, 0, 0, 0],
        kernel = [[1, 1, 1], [1, 9, 1], [1, 1, 1]], edges = ''wrap'', edge_fill = 0,
        cell_array = Some 0\<rparr>
       = (map Yield addrs @ [StopIteration], [NdArray2 [[0, 0, 0], [0, 1, 0], [0, 0, 0]]] @ ext, ca')
     \<and> length addrs = 2"
  using n_generations_snapshots [of
      "\<lparr>cls = LifeLike_cls, convolve_boundary = ''wrap'',
        update_array = NdArray1 [0, 0, 0, 1, 0, 0, 0, 0, 0, 0, 0, 1, 1, 0, 0, 0, 0, 0],
        kernel = [[1, 1, 1], [1, 9, 1], [1, 1, 1]], edges = ''wrap'', edge_fill = 0,
        cell_array = Some 0\<rparr>" 0 "[NdArray2 [[0, 0, 0], [0, 1, 0], [0, 0, 0]]]"
      "[[0, 0, 0], [0, 1, 0], [0, 0, 0]]" 2 3]
    life_two_generations
  by simp blast

text \<open>
  Claim C1 as stated fails: with \<open>n = 1\<close> the generator yields one snapshot and ends (not
  two), and with \<open>n = 0\<close> it yields none.
\<close>

theorem n_generations_counterexample:
  "fst (n_generations 3 1 [NdArray2 [[0, 0, 0], [0, 1, 0], [0, 0, 0]]]
         \<lparr>cls = LifeLike_cls, convolve_boundary = ''wrap'',
          update_array = NdArray1 [0, 0, 0, 1, 0, 0, 0, 0, 0, 0, 0, 1, 1, 0, 0, 0, 0, 0],
          kernel = [[1, 1, 1], [1, 9, 1], [1, 1, 1]], edges = ''wrap'', edge_fill = 0,
          cell_array = Some 0\<rparr>)
     = [Yield 1, StopIteration]
   \<and> fst (n_generations 3 0 [NdArray2 [[0, 0, 0], [0, 1, 0], [0, 0, 0]]]
         \<lparr>cls = LifeLike_cls, convolve_boundary = ''wrap'',
          update_array = NdArray1 [0, 0, 0, 1, 0, 0, 0, 0, 0, 0, 0, 1, 1, 0, 0, 0, 0, 0],
          kernel = [[1, 1, 1], [1, 9, 1], [1, 1, 1]], edges = ''wrap'', edge_fill = 0,
          cell_array = Some 0\<rparr>)
     = [StopIteration]"
  by code_simp

section \<open>LifeLike.parse without weights\<close>













section \<open>LifeLike with custom weights\<close>

text \<open>
  Claim C7. The weights \<open>[[1,2,3],[4,5,6]]\<close> are not square, and
  \<open>LifeLike("B3/S23", weights=[[1,2,3],[4,5,6]])\<close> raises nothing: it returns an automaton
  with a 2x3 kernel. The shape is never checked.
\<close>

theorem LifeLike_accepts_non_square_weights:
  "LifeLike [PyList [PyList [PyInt 1, PyInt 2, PyInt 3], PyList [PyInt 4, PyInt 5, PyInt 6]]]
     (RuleString ''B3/S23'') ''wrap'' 0 1 (Some 0)
   = ([PyList [PyList [PyInt 1, PyInt 2, PyInt 3], PyList [PyInt 4, PyInt 5, PyInt 6]]],
      Inr \<lparr>cls = LifeLike_cls, convolve_boundary = ''wrap'',
           update_array =
             NdArray1 [0, 0, 0, 1, 0, 0, 0, 0, 0, 0, 0, 0, 0, 0, 0, 0, 0, 0, 0, 0,
                       0, 0, 1, 1, 0, 0, 0, 0, 0, 0, 0, 0, 0, 0, 0, 0, 0, 0, 0, 0],
           kernel = [[6, 5, 4], [3, 20, 1]], edges = ''wrap'', edge_fill = 0,
           cell_array = None\<rparr>)"
  by code_simp
















section \<open>NonTotalistic with a rule that is not callable\<close>

text \<open>
  Claim C8, amended. A rule that is not callable is never validated: with a supported
  neighbourhood, a valid edge mode and a base that fits a 64-bit integer, the construction
  succeeds for every such argument and stores it unchanged as the update array.
\<close>

theorem NonTotalistic_keeps_non_callable_rule:
  assumes "lower nb \<in> {''moore'', ''von neumann'', ''extended''}"
    and "edg = ''wrap'' \<or> edg = ''fixed''"
    and "- (2 ^ 63) \<le> base" and "base < 2 ^ 63"
  shows "\<exists>k. NonTotalistic_parse_kernel base nb = Inr k
           \<and> NonTotalistic (NotCallable v) base nb edg fill
               = Inr \<lparr>cls = NonTotalistic_cls,
                      convolve_boundary = (if edg = ''wrap'' then ''wrap'' else ''fill''),
                      update_array = v, kernel = k, edges = edg, edge_fill = fill,
                      cell_array = None\<rparr>"
  using assms
  by (auto simp: NonTotalistic_def NonTotalistic_parse_kernel_def NonTotalistic_parse_rule_def
      ConvCA_init_def nb_patterns_def nb_exponents_def)

theorem NonTotalistic_keeps_non_callable_rule_witness:
  "\<exists>k. NonTotalistic_parse_kernel 2 ''Moore'' = Inr k
       \<and> NonTotalistic (NotCallable (PyStr ''no rule'')) 2 ''Moore'' ''fixed'' 0
           = Inr \<lparr>cls = NonTotalistic_cls, convolve_boundary = ''fill'',
                  update_array = PyStr ''no rule'', kernel = k, edges = ''fixed'', edge_fill = 0,
                  cell_array = None\<rparr>"
proof -
  have "lower ''Moore'' \<in> {''moore'', ''von neumann'', ''extended''}"
    by code_simp
  then show ?thesis
    using NonTotalistic_keeps_non_callable_rule [of "''Moore''" "''fixed''" 2 "PyStr ''no rule''" 0]
    by simp
qed

text \<open>
  Claim C8 as stated fails: \<open>None\<close> is neither callable nor an update table, and
  \<open>NonTotalistic(None)\<close> returns an automaton whose update array is \<open>None\<close>.
\<close>

theorem NonTotalistic_rule_counterexample:
  "NonTotalistic (NotCallable PyNone) 2 ''moore'' ''wrap'' 0
     = Inr \<lparr>cls = NonTotalistic_cls, convolve_boundary = ''wrap'', update_array = PyNone,
            kernel = [[256, 128, 64], [32, 16, 8], [4, 2, 1]], edges = ''wrap'', edge_fill = 0,
            cell_array = None\<rparr>"
  by code_simp

section \<open>NonTotalistic: the update table of a rule function\<close>

lemma concat_nth_block:
  assumes "\<forall>ys \<in> set xss. length ys = L" and "i < length xss" and "j < L"
  shows "concat xss ! (i * L + j) = xss ! i ! j"
  using assms
proof (induction xss arbitrary: i)
  case Nil
  then show ?case by simp
next
  case (Cons ys xss)
  show ?case
  proof (cases i)
    case 0
    then show ?thesis using Cons.prems by (simp add: nth_append)
  next
    case (Suc i')
    have "concat xss ! (i' * L + j) = xss ! i' ! j"
      using Cons.prems Suc by (intro Cons.IH) simp_all
    moreover have "length ys = L" using Cons.prems(1) by simp
    ultimately show ?thesis using Suc by (simp add: nth_append)
  qed
qed

lemma length_concat_blocks:
  assumes "\<forall>ys \<in> set xss. length ys = L"
  shows "length (concat xss) = length xss * L"
  using assms by (induction xss) simp_all

lemma length_product_repeat: "length (product_repeat xs n) = length xs ^ n"
proof (induction n)
  case 0
  then show ?case by simp
next
  case (Suc n)
  have "length (concat (map (\<lambda>x. map ((#) x) (product_repeat xs n)) xs))
          = length (map (\<lambda>x. map ((#) x) (product_repeat xs n)) xs) * length xs ^ n"
    by (rule length_concat_blocks) (auto simp: Suc)
  then show ?case by simp
qed

lemma lex_index_less:
  assumes "\<forall>x \<in> set t. 0 \<le> x \<and> x < int b"
  shows "lex_index b t < b ^ length t"
  using assms
proof (induction t)
  case Nil
  then show ?case by simp
next
  case (Cons x t)
  have x: "nat x < b" using Cons.prems by auto
  have t: "lex_index b t < b ^ length t" using Cons by simp
  have "nat x * b ^ length t + lex_index b t < nat x * b ^ length t + b ^ length t"
    using t by simp
  also have "\<dots> = (nat x + 1) * b ^ length t" by simp
  also have "\<dots> \<le> b * b ^ length t"
    using x by (intro mult_right_mono) simp_all
  finally show ?case by simp
qed

lemma product_repeat_nth:
  assumes "\<forall>x \<in> set t. 0 \<le> x \<and> x < base"
  shows "product_repeat (py_range base) (length t) ! lex_index (nat base) t = t"
  using assms
proof (induction t)
  case Nil
  then show ?case by simp
next
  case (Cons x t)
  let ?P = "product_repeat (py_range base) (length t)"
  let ?xss = "map (\<lambda>x. map ((#) x) ?P) (py_range base)"
  let ?L = "nat base ^ length t"
  have x: "nat x < nat base" "0 \<le> x" using Cons.prems by auto
  have ih: "?P ! lex_index (nat base) t = t" using Cons by simp
  have lt: "lex_index (nat base) t < ?L"
    using Cons.prems by (intro lex_index_less) auto
  have len: "length ?P = ?L"
    by (simp add: length_product_repeat py_range_def)
  have "concat ?xss ! (nat x * ?L + lex_index (nat base) t) = ?xss ! nat x ! lex_index (nat base) t"
    using x lt len by (intro concat_nth_block) (auto simp: py_range_def)
  also have "\<dots> = x # t"
    using x lt len ih by (simp add: py_range_def)
  finally show ?case by simp
qed

lemma upt_5: "[0..<5] = [0, 1, 2, 3, 4]"
  by (simp add: upt_rec)

lemma int64_id:
  assumes "- (2 ^ 63) \<le> x" and "x < 2 ^ 63"
  shows "int64 x = x"
  using assms by (simp add: int64_def)

text \<open>Below the bound, no power of the base wraps.\<close>

lemma int64_power:
  assumes "1 \<le> b" and "b ^ n < 2 ^ 63" and "k \<le> n"
  shows "int64 (b ^ k) = b ^ k"
proof -
  have "b ^ k \<le> b ^ n" using assms(3,1) by (rule power_increasing)
  then have "b ^ k < 2 ^ 63" using assms(2) by simp
  moreover have "0 \<le> b ^ k" using assms(1) by simp
  ultimately show ?thesis by (intro int64_id) simp_all
qed

lemma base_fits:
  assumes "1 \<le> (b::int)" and "b ^ n < 2 ^ 63" and "1 \<le> n"
  shows "\<not> (b < - (2 ^ 63) \<or> 2 ^ 63 \<le> b)"
proof -
  have "b ^ 1 \<le> b ^ n" using assms(3,1) by (rule power_increasing)
  then show ?thesis using assms(1,2) by simp
qed

lemma moore_kernel:
  assumes "lower nb = ''moore''" and "1 \<le> b" and "b ^ 8 < 2 ^ 63"
  shows "NonTotalistic_parse_kernel b nb
           = Inr [[b ^ 8, b ^ 7, b ^ 6], [b ^ 5, b ^ 4, b ^ 3], [b ^ 2, b, 1]]"
proof -
  note p = int64_power [OF assms(2,3)]
  have w: "int64 (b ^ 8) = b ^ 8" "int64 (b ^ 7) = b ^ 7" "int64 (b ^ 6) = b ^ 6"
    "int64 (b ^ 5) = b ^ 5" "int64 (b ^ 4) = b ^ 4" "int64 (b ^ 3) = b ^ 3"
    "int64 (b ^ 2) = b ^ 2" "int64 b = b" "int64 1 = 1"
    using p [of 8] p [of 7] p [of 6] p [of 5] p [of 4] p [of 3] p [of 2] p [of 1] p [of 0]
    by simp_all
  show ?thesis
    using base_fits [OF assms(2,3)]
    by (simp add: NonTotalistic_parse_kernel_def assms(1) nb_patterns_def nb_exponents_def
        np_flip2_def w)
qed

lemma von_neumann_kernel:
  assumes "lower nb = ''von neumann''" and "1 \<le> b" and "b ^ 4 < 2 ^ 63"
  shows "NonTotalistic_parse_kernel b nb = Inr [[0, b ^ 4, 0], [b ^ 3, b ^ 2, b], [0, 1, 0]]"
proof -
  note p = int64_power [OF assms(2,3)]
  have w: "int64 (b ^ 4) = b ^ 4" "int64 (b ^ 3) = b ^ 3"
    "int64 (b ^ 2) = b ^ 2" "int64 b = b" "int64 1 = 1"
    using p [of 4] p [of 3] p [of 2] p [of 1] p [of 0]
    by simp_all
  show ?thesis
    using base_fits [OF assms(2,3)]
    by (simp add: NonTotalistic_parse_kernel_def assms(1) nb_patterns_def nb_exponents_def
        np_flip2_def w)
qed

lemma extended_kernel:
  assumes "lower nb = ''extended''" and "1 \<le> b" and "b ^ 8 < 2 ^ 63"
  shows "NonTotalistic_parse_kernel b nb
           = Inr [[0, 0, b ^ 8, 0, 0], [0, 0, b ^ 7, 0, 0], [b ^ 6, b ^ 5, b ^ 4, b ^ 3, b ^ 2],
                  [0, 0, b, 0, 0], [0, 0, 1, 0, 0]]"
proof -
  note p = int64_power [OF assms(2,3)]
  have w: "int64 (b ^ 8) = b ^ 8" "int64 (b ^ 7) = b ^ 7" "int64 (b ^ 6) = b ^ 6"
    "int64 (b ^ 5) = b ^ 5" "int64 (b ^ 4) = b ^ 4" "int64 (b ^ 3) = b ^ 3"
    "int64 (b ^ 2) = b ^ 2" "int64 b = b" "int64 1 = 1"
    using p [of 8] p [of 7] p [of 6] p [of 5] p [of 4] p [of 3] p [of 2] p [of 1] p [of 0]
    by simp_all
  show ?thesis
    using base_fits [OF assms(2,3)]
    by (simp add: NonTotalistic_parse_kernel_def assms(1) nb_patterns_def nb_exponents_def
        np_flip2_def w)
qed

text \<open>
  Beyond the bound the kernel is another one: at base 256 the power \<open>256 ^ 8 = 2 ^ 64\<close>
  wraps to 0, and a base of \<open>2 ^ 64\<close> is refused.
\<close>

lemma moore_kernel_wraps:
  "NonTotalistic_parse_kernel 256 ''moore''
     = Inr [[0, 72057594037927936, 281474976710656], [1099511627776, 4294967296, 16777216],
            [65536, 256, 1]]"
  by code_simp

lemma kernel_base_overflow:
  "NonTotalistic_parse_kernel 18446744073709551616 ''moore''
     = Inl (OverflowError ''Python integer out of bounds for int64'')"
  by code_simp

lemma moore_code:
  assumes "bd = ''wrap'' \<or> bd = ''fill''"
  shows "pattern_code bd fill [[1,1,1],[1,1,1],[1,1,1]]
           [[b ^ 8, b ^ 7, b ^ 6], [b ^ 5, b ^ 4, b ^ 3], [b ^ 2, b, 1]]
           [a0, a1, a2, a3, a4, a5, a6, a7, a8]
         = a0 + a1 * b + a2 * b ^ 2 + a3 * b ^ 3 + a4 * b ^ 4 + a5 * b ^ 5 + a6 * b ^ 6
           + a7 * b ^ 7 + a8 * b ^ 8"
  using assms
  by (auto simp: pattern_code_def conv_cell_def width_def upt_3 boundary_read_def)

lemma von_neumann_code:
  assumes "bd = ''wrap'' \<or> bd = ''fill''"
  shows "pattern_code bd fill [[0,1,0],[1,1,1],[0,1,0]]
           [[0, b ^ 4, 0], [b ^ 3, b ^ 2, b], [0, 1, 0]] [a0, a1, a2, a3, a4]
         = a0 + a1 * b + a2 * b ^ 2 + a3 * b ^ 3 + a4 * b ^ 4"
  using assms
  by (auto simp: pattern_code_def conv_cell_def width_def upt_3 boundary_read_def)

lemma extended_code:
  assumes "bd = ''wrap'' \<or> bd = ''fill''"
  shows "pattern_code bd fill
           [[0,0,1,0,0],[0,0,1,0,0],[1,1,1,1,1],[0,0,1,0,0],[0,0,1,0,0]]
           [[0, 0, b ^ 8, 0, 0], [0, 0, b ^ 7, 0, 0], [b ^ 6, b ^ 5, b ^ 4, b ^ 3, b ^ 2],
            [0, 0, b, 0, 0], [0, 0, 1, 0, 0]]
           [a0, a1, a2, a3, a4, a5, a6, a7, a8]
         = a0 + a1 * b + a2 * b ^ 2 + a3 * b ^ 3 + a4 * b ^ 4 + a5 * b ^ 5 + a6 * b ^ 6
           + a7 * b ^ 7 + a8 * b ^ 8"
  using assms
  by (auto simp: pattern_code_def conv_cell_def width_def upt_5 boundary_read_def)

lemma np_array_ints:
  assumes "xs \<noteq> []"
  shows "np_array (PyList (map (\<lambda>x. PyInt (g x)) xs)) = Inr (NdArray1 (map g xs))"
  using assms by (simp add: list_all_iff comp_def)

lemma supported_neighbourhood:
  assumes "map_of nb_sizes x = Some s"
  shows "x = ''moore'' \<and> s = 9 \<or> x = ''von neumann'' \<and> s = 5 \<or> x = ''extended'' \<and> s = 9"
  using assms by (auto simp: nb_sizes_def split: if_splits)

lemma update_table:
  assumes "1 \<le> base" and "map_of nb_sizes (lower nb) = Some s"
  shows "func_to_update_array f base nb
           = Inr (NdArray1 (map (\<lambda>poss. f (pattern_arg nb (rev poss)))
                              (product_repeat (py_range base) s)))"
proof -
  have "length (product_repeat (py_range base) s) = nat base ^ s"
    by (simp add: length_product_repeat py_range_def)
  then have "product_repeat (py_range base) s \<noteq> []"
    using assms(1) by auto
  then show ?thesis
    using np_array_ints [of "product_repeat (py_range base) s" "\<lambda>poss. f (pattern_arg nb (rev poss))"]
    by (simp add: func_to_update_array_def assms(2) pattern_arg_def)
qed

lemma table_at_code:
  assumes "1 \<le> base" and "length p = s" and "\<forall>x \<in> set p. 0 \<le> x \<and> x < base"
    and "code = int (lex_index (nat base) (rev p))"
    and "tbl = map (\<lambda>poss. f (pattern_arg nb (rev poss))) (product_repeat (py_range base) s)"
  shows "0 \<le> code \<and> code < base ^ s \<and> tbl ! nat code = f (pattern_arg nb p)"
proof -
  let ?i = "lex_index (nat base) (rev p)"
  have r: "\<forall>x \<in> set (rev p). 0 \<le> x \<and> x < base" using assms(3) by simp
  have "\<forall>x \<in> set (rev p). 0 \<le> x \<and> x < int (nat base)" using r assms(1) by simp
  then have lt: "?i < nat base ^ s"
    using lex_index_less [of "rev p" "nat base"] assms(2) by simp
  then have "int ?i < int (nat base ^ s)" by (simp only: of_nat_less_iff)
  then have c: "code < base ^ s" using assms(1,4) by simp
  have "product_repeat (py_range base) (length (rev p)) ! ?i = rev p"
    using r by (rule product_repeat_nth)
  then have "product_repeat (py_range base) s ! ?i = rev p"
    using assms(2) by simp
  moreover have "?i < length (product_repeat (py_range base) s)"
    using lt by (simp add: length_product_repeat py_range_def)
  ultimately have "tbl ! ?i = f (pattern_arg nb p)"
    by (simp add: assms(5))
  then show ?thesis using c assms(4) by simp
qed

lemma length_5:
  assumes "length p = 5"
  shows "\<exists>a0 a1 a2 a3 a4. p = [a0, a1, a2, a3, a4]"
  using assms by (auto simp: numeral_eq_Suc length_Suc_conv)

lemma length_9:
  assumes "length p = 9"
  shows "\<exists>a0 a1 a2 a3 a4 a5 a6 a7 a8. p = [a0, a1, a2, a3, a4, a5, a6, a7, a8]"
  using assms by (auto simp: numeral_eq_Suc length_Suc_conv)

lemma lex_index_5:
  assumes "0 \<le> b" and "\<forall>x \<in> set [a0, a1, a2, a3, a4]. 0 \<le> x"
  shows "int (lex_index (nat b) (rev [a0, a1, a2, a3, a4]))
           = a0 + a1 * b + a2 * b ^ 2 + a3 * b ^ 3 + a4 * b ^ 4"
  using assms by (simp add: eval_nat_numeral)

lemma lex_index_9:
  assumes "0 \<le> b" and "\<forall>x \<in> set [a0, a1, a2, a3, a4, a5, a6, a7, a8]. 0 \<le> x"
  shows "int (lex_index (nat b) (rev [a0, a1, a2, a3, a4, a5, a6, a7, a8]))
           = a0 + a1 * b + a2 * b ^ 2 + a3 * b ^ 3 + a4 * b ^ 4 + a5 * b ^ 5 + a6 * b ^ 6
             + a7 * b ^ 7 + a8 * b ^ 8"
  using assms by (simp add: eval_nat_numeral)

lemma power_below:
  assumes "1 \<le> (b::int)" and "b ^ n < c" and "k \<le> n"
  shows "b ^ k < c"
proof -
  have "b ^ k \<le> b ^ n" using assms(3,1) by (rule power_increasing)
  then show ?thesis using assms(2) by simp
qed

text \<open>
  The kernel of a supported neighbourhood of size \<open>s\<close>, when \<open>base ^ s\<close> is below \<open>2 ^ 63\<close>:
  no entry wraps.
\<close>

lemma supported_kernel:
  assumes "map_of nb_sizes (lower nb) = Some s" and "1 \<le> base" and "base ^ s < 2 ^ 63"
  shows "lower nb = ''moore'' \<and> s = 9
           \<and> NonTotalistic_parse_kernel base nb
               = Inr [[base ^ 8, base ^ 7, base ^ 6], [base ^ 5, base ^ 4, base ^ 3],
                      [base ^ 2, base, 1]]
         \<or> lower nb = ''von neumann'' \<and> s = 5
           \<and> NonTotalistic_parse_kernel base nb
               = Inr [[0, base ^ 4, 0], [base ^ 3, base ^ 2, base], [0, 1, 0]]
         \<or> lower nb = ''extended'' \<and> s = 9
           \<and> NonTotalistic_parse_kernel base nb
               = Inr [[0, 0, base ^ 8, 0, 0], [0, 0, base ^ 7, 0, 0],
                      [base ^ 6, base ^ 5, base ^ 4, base ^ 3, base ^ 2],
                      [0, 0, base, 0, 0], [0, 0, 1, 0, 0]]"
proof -
  consider (moore) "lower nb = ''moore''" "s = 9"
    | (von_neumann) "lower nb = ''von neumann''" "s = 5"
    | (extended) "lower nb = ''extended''" "s = 9"
    using supported_neighbourhood [OF assms(1)] by blast
  then show ?thesis
  proof cases
    case moore
    have "base ^ 8 < 2 ^ 63"
      using assms(2,3) by (rule power_below) (simp add: moore(2))
    then show ?thesis
      using moore moore_kernel [OF moore(1) assms(2)] by simp
  next
    case von_neumann
    have "base ^ 4 < 2 ^ 63"
      using assms(2,3) by (rule power_below) (simp add: von_neumann(2))
    then show ?thesis
      using von_neumann von_neumann_kernel [OF von_neumann(1) assms(2)] by simp
  next
    case extended
    have "base ^ 8 < 2 ^ 63"
      using assms(2,3) by (rule power_below) (simp add: extended(2))
    then show ?thesis
      using extended extended_kernel [OF extended(1) assms(2)] by simp
  qed
qed

text \<open>The code of a pattern is its position in the enumeration of the reversed tuples.\<close>

lemma code_is_index:
  assumes "map_of nb_sizes (lower nb) = Some s" and "map_of nb_patterns (lower nb) = Some pat"
    and "NonTotalistic_parse_kernel base nb = Inr k" and "bd = ''wrap'' \<or> bd = ''fill''"
    and "1 \<le> base" and "base ^ s < 2 ^ 63" and "length p = s" and "\<forall>x \<in> set p. 0 \<le> x"
  shows "pattern_code bd fill pat k p = int (lex_index (nat base) (rev p))"
proof -
  have b0: "0 \<le> base" using assms(5) by simp
  consider (moore) "lower nb = ''moore''" "s = 9"
      "k = [[base ^ 8, base ^ 7, base ^ 6], [base ^ 5, base ^ 4, base ^ 3], [base ^ 2, base, 1]]"
    | (von_neumann) "lower nb = ''von neumann''" "s = 5"
      "k = [[0, base ^ 4, 0], [base ^ 3, base ^ 2, base], [0, 1, 0]]"
    | (extended) "lower nb = ''extended''" "s = 9"
      "k = [[0, 0, base ^ 8, 0, 0], [0, 0, base ^ 7, 0, 0],
            [base ^ 6, base ^ 5, base ^ 4, base ^ 3, base ^ 2],
            [0, 0, base, 0, 0], [0, 0, 1, 0, 0]]"
    using supported_kernel [OF assms(1,5,6)] assms(3) by auto
  then show ?thesis
  proof cases
    case moore
    obtain a0 a1 a2 a3 a4 a5 a6 a7 a8 where p: "p = [a0, a1, a2, a3, a4, a5, a6, a7, a8]"
      using length_9 assms(7) moore(2) by blast
    have pat: "pat = [[1,1,1],[1,1,1],[1,1,1]]"
      using assms(2) by (simp add: moore(1) nb_patterns_def)
    show ?thesis
      unfolding p pat moore(3)
      using moore_code [OF assms(4)] lex_index_9 [OF b0] assms(8) [unfolded p]
      by (simp only:)
  next
    case von_neumann
    obtain a0 a1 a2 a3 a4 where p: "p = [a0, a1, a2, a3, a4]"
      using length_5 assms(7) von_neumann(2) by blast
    have pat: "pat = [[0,1,0],[1,1,1],[0,1,0]]"
      using assms(2) by (simp add: von_neumann(1) nb_patterns_def)
    show ?thesis
      unfolding p pat von_neumann(3)
      using von_neumann_code [OF assms(4)] lex_index_5 [OF b0] assms(8) [unfolded p]
      by (simp only:)
  next
    case extended
    obtain a0 a1 a2 a3 a4 a5 a6 a7 a8 where p: "p = [a0, a1, a2, a3, a4, a5, a6, a7, a8]"
      using length_9 assms(7) extended(2) by blast
    have pat: "pat = [[0,0,1,0,0],[0,0,1,0,0],[1,1,1,1,1],[0,0,1,0,0],[0,0,1,0,0]]"
      using assms(2) by (simp add: extended(1) nb_patterns_def)
    show ?thesis
      unfolding p pat extended(3)
      using extended_code [OF assms(4)] lex_index_9 [OF b0] assms(8) [unfolded p]
      by (simp only:)
  qed
qed

lemma supported_pattern:
  assumes "map_of nb_sizes x = Some s"
  shows "\<exists>pat. map_of nb_patterns x = Some pat"
  using supported_neighbourhood [OF assms] by (auto simp: nb_patterns_def)

text \<open>
  Claim C3. For a rule function \<open>f\<close>, a base of at least 1, a supported neighbourhood of
  size \<open>s\<close> with \<open>base ^ s\<close> below \<open>2 ^ 63\<close> (so that neither the kernel nor a code leaves the
  64-bit integers), and either edge mode, the construction returns an automaton whose
  update table has length \<open>base ^ s\<close>. For every pattern \<open>p\<close> of \<open>s\<close> states below the base,
  the code of \<open>p\<close> under the kernel of the automaton (with its boundary mode and fill value)
  is an index into the table, and the entry there is \<open>f\<close> applied to the pattern, in the
  shape in which \<open>f\<close> is called.
\<close>

theorem NonTotalistic_update_table:
  assumes "1 \<le> base" and "map_of nb_sizes (lower nb) = Some s" and "base ^ s < 2 ^ 63"
    and "edg = ''wrap'' \<or> edg = ''fixed''"
  shows "\<exists>tbl k pat bd.
           NonTotalistic (Callable f) base nb edg fill
             = Inr \<lparr>cls = NonTotalistic_cls, convolve_boundary = bd,
                    update_array = NdArray1 tbl, kernel = k, edges = edg, edge_fill = fill,
                    cell_array = None\<rparr>
           \<and> map_of nb_patterns (lower nb) = Some pat
           \<and> NonTotalistic_parse_kernel base nb = Inr k
           \<and> length tbl = nat base ^ s
           \<and> (\<forall>p. length p = s \<and> (\<forall>x \<in> set p. 0 \<le> x \<and> x < base) \<longrightarrow>
                  0 \<le> pattern_code bd fill pat k p
                  \<and> pattern_code bd fill pat k p < base ^ s
                  \<and> tbl ! nat (pattern_code bd fill pat k p) = f (pattern_arg nb p))"
proof -
  let ?tbl = "map (\<lambda>poss. f (pattern_arg nb (rev poss))) (product_repeat (py_range base) s)"
  let ?bd = "if edg = ''wrap'' then ''wrap'' else ''fill''"
  obtain pat where pat: "map_of nb_patterns (lower nb) = Some pat"
    using supported_pattern [OF assms(2)] by blast
  obtain k where k: "NonTotalistic_parse_kernel base nb = Inr k"
    using supported_kernel [OF assms(2,1,3)] by blast
  have tbl: "func_to_update_array f base nb = Inr (NdArray1 ?tbl)"
    using assms(1,2) by (rule update_table)
  have bd: "?bd = ''wrap'' \<or> ?bd = ''fill''" by simp
  have ca: "NonTotalistic (Callable f) base nb edg fill
             = Inr \<lparr>cls = NonTotalistic_cls, convolve_boundary = ?bd,
                    update_array = NdArray1 ?tbl, kernel = k, edges = edg, edge_fill = fill,
                    cell_array = None\<rparr>"
    using assms(4) by (auto simp: NonTotalistic_def NonTotalistic_parse_rule_def k tbl ConvCA_init_def)
  have len: "length ?tbl = nat base ^ s"
    by (simp add: length_product_repeat py_range_def)
  have entry: "0 \<le> pattern_code ?bd fill pat k p
                  \<and> pattern_code ?bd fill pat k p < base ^ s
                  \<and> ?tbl ! nat (pattern_code ?bd fill pat k p) = f (pattern_arg nb p)"
    if "length p = s" and "\<forall>x \<in> set p. 0 \<le> x \<and> x < base" for p
  proof -
    have "pattern_code ?bd fill pat k p = int (lex_index (nat base) (rev p))"
      using assms(2) pat k bd assms(1,3) that(1)
    proof (rule code_is_index)
      show "\<forall>x \<in> set p. 0 \<le> x" using that(2) by blast
    qed
    then show ?thesis
      using table_at_code [OF assms(1) that(1) that(2) _ refl] by blast
  qed
  show ?thesis
    using ca pat k len entry
    by (intro exI [of _ ?tbl] exI [of _ k] exI [of _ pat] exI [of _ ?bd]) blast
qed

theorem NonTotalistic_update_table_witness:
  "\<exists>tbl k pat bd.
     NonTotalistic (Callable (\<lambda>v. if v = NdArray2 [[0, 1, 0], [0, 1, 0], [0, 0, 1]] then 1 else 0))
         2 ''Moore'' ''wrap'' 0
       = Inr \<lparr>cls = NonTotalistic_cls, convolve_boundary = bd, update_array = NdArray1 tbl,
              kernel = k, edges = ''wrap'', edge_fill = 0, cell_array = None\<rparr>
     \<and> length tbl = 512
     \<and> tbl ! nat (pattern_code bd 0 pat k [0, 1, 0, 0, 1, 0, 0, 0, 1]) = 1
     \<and> tbl ! nat (pattern_code bd 0 pat k [0, 1, 0, 0, 1, 0, 0, 0, 0]) = 0"
proof -
  let ?f = "\<lambda>v. if v = NdArray2 [[0, 1, 0], [0, 1, 0], [0, 0, 1]] then 1 else (0::int)"
  have s: "map_of nb_sizes (lower ''Moore'') = Some 9"
    by code_simp
  have a1: "pattern_arg ''Moore'' [0, 1, 0, 0, 1, 0, 0, 0, 1] = NdArray2 [[0, 1, 0], [0, 1, 0], [0, 0, 1]]"
    by code_simp
  have a0: "pattern_arg ''Moore'' [0, 1, 0, 0, 1, 0, 0, 0, 0] = NdArray2 [[0, 1, 0], [0, 1, 0], [0, 0, 0]]"
    by code_simp
  obtain tbl k pat bd where
    ca: "NonTotalistic (Callable ?f) 2 ''Moore'' ''wrap'' 0
           = Inr \<lparr>cls = NonTotalistic_cls, convolve_boundary = bd, update_array = NdArray1 tbl,
                  kernel = k, edges = ''wrap'', edge_fill = 0, cell_array = None\<rparr>"
    and len: "length tbl = nat 2 ^ 9"
    and entry: "\<forall>p. length p = 9 \<and> (\<forall>x \<in> set p. 0 \<le> x \<and> x < 2) \<longrightarrow>
                  0 \<le> pattern_code bd 0 pat k p
                  \<and> pattern_code bd 0 pat k p < 2 ^ 9
                  \<and> tbl ! nat (pattern_code bd 0 pat k p) = ?f (pattern_arg ''Moore'' p)"
    using NonTotalistic_update_table [of 2 "''Moore''" 9 "''wrap''" ?f 0] s by auto
  have "tbl ! nat (pattern_code bd 0 pat k [0, 1, 0, 0, 1, 0, 0, 0, 1]) = 1"
    using entry [rule_format, of "[0, 1, 0, 0, 1, 0, 0, 0, 1]"] by (simp add: a1)
  moreover have "tbl ! nat (pattern_code bd 0 pat k [0, 1, 0, 0, 1, 0, 0, 0, 0]) = 0"
    using entry [rule_format, of "[0, 1, 0, 0, 1, 0, 0, 0, 0]"] by (simp add: a0)
  moreover have "length tbl = 512" using len by simp
  ultimately show ?thesis using ca by blast
qed

end
